theory Spec2Isabelle
  imports Complex_Main "HOL-Library.Word" "HOL-Library.Signed_Division"
begin

section \<open>Floating-point values\<close>

text \<open>
  The bank stores its ranges as C \<open>float\<close> and computes on them as \<open>float\<close> or
  \<open>double\<close>. A value is a finite number, one of the two infinities, or not-a-number; a
  LaserScan reports an out-of-range reading as an infinity, so the infinities are ordinary
  contents of a slot. The operations below follow IEEE 754 on the special values.

  \<open>fl_add\<close>, \<open>fl_sub\<close> and \<open>fl_mul\<close> are exact on finite values. The blend of two
  scans and the reset value of a slot, which the source computes in \<open>double\<close> and stores
  as \<open>float\<close>, are built from them: their rounding is not modelled. The \<open>float\<close>
  arithmetic of the search for objects and of the tracker is rounded after every
  operation: \<open>fl_addf\<close>, \<open>fl_subf\<close> and \<open>fl_div_count\<close> round the exact result to the
  nearest \<open>float\<close>, as defined at the end of this section. The sign of zero is not
  modelled.
\<close>

datatype fl = Fin real | PInf | NInf | NaN

fun fl_neg :: "fl \<Rightarrow> fl" where
  "fl_neg (Fin x) = Fin (- x)"
| "fl_neg PInf = NInf"
| "fl_neg NInf = PInf"
| "fl_neg NaN = NaN"

fun fl_add :: "fl \<Rightarrow> fl \<Rightarrow> fl" where
  "fl_add NaN y = NaN"
| "fl_add x NaN = NaN"
| "fl_add (Fin x) (Fin y) = Fin (x + y)"
| "fl_add PInf NInf = NaN"
| "fl_add NInf PInf = NaN"
| "fl_add PInf y = PInf"
| "fl_add x PInf = PInf"
| "fl_add NInf y = NInf"
| "fl_add x NInf = NInf"

definition fl_sub :: "fl \<Rightarrow> fl \<Rightarrow> fl" where
  "fl_sub x y = fl_add x (fl_neg y)"

text \<open>Sign of a finite factor next to an infinity: zero times infinity is not a number.\<close>

definition fl_inf_times :: "bool \<Rightarrow> real \<Rightarrow> fl" where
  "fl_inf_times positive x =
     (if x = 0 then NaN else if (0 < x) = positive then PInf else NInf)"

fun fl_mul :: "fl \<Rightarrow> fl \<Rightarrow> fl" where
  "fl_mul NaN y = NaN"
| "fl_mul x NaN = NaN"
| "fl_mul (Fin x) (Fin y) = Fin (x * y)"
| "fl_mul (Fin x) PInf = fl_inf_times True x"
| "fl_mul (Fin x) NInf = fl_inf_times False x"
| "fl_mul PInf (Fin y) = fl_inf_times True y"
| "fl_mul NInf (Fin y) = fl_inf_times False y"
| "fl_mul PInf PInf = PInf"
| "fl_mul NInf NInf = PInf"
| "fl_mul PInf NInf = NInf"
| "fl_mul NInf PInf = NInf"

fun fl_abs :: "fl \<Rightarrow> fl" where
  "fl_abs (Fin x) = Fin \<bar>x\<bar>"
| "fl_abs PInf = PInf"
| "fl_abs NInf = PInf"
| "fl_abs NaN = NaN"

text \<open>Comparisons: every comparison with not-a-number is false.\<close>

fun fl_le :: "fl \<Rightarrow> fl \<Rightarrow> bool" where
  "fl_le NaN y = False"
| "fl_le x NaN = False"
| "fl_le (Fin x) (Fin y) = (x \<le> y)"
| "fl_le NInf y = True"
| "fl_le x PInf = True"
| "fl_le x y = False"

fun fl_lt :: "fl \<Rightarrow> fl \<Rightarrow> bool" where
  "fl_lt NaN y = False"
| "fl_lt x NaN = False"
| "fl_lt (Fin x) (Fin y) = (x < y)"
| "fl_lt PInf y = False"
| "fl_lt x NInf = False"
| "fl_lt x y = True"

subsection \<open>Rounding to \<open>float\<close>\<close>

text \<open>
  A \<open>float\<close> is an IEEE 754 binary32 number: 24 significant bits, exponents from
  \<open>-126\<close> to \<open>127\<close>. \<open>float_exponent a\<close> is the exponent of the binade of a positive
  \<open>a\<close>, not below \<open>-126\<close>, where the subnormal numbers lie; the spacing of the floats
  around \<open>a\<close> is \<open>pow2 (float_exponent a - 23)\<close>.
\<close>

function halvings :: "real \<Rightarrow> nat" where
  "halvings a = (if 2 \<le> a then Suc (halvings (a / 2)) else 0)"
  by pat_completeness auto
termination
proof (relation "measure (\<lambda>a. nat \<lfloor>a\<rfloor>)")
  show "wf (measure (\<lambda>a :: real. nat \<lfloor>a\<rfloor>))" by simp
next
  fix a :: real
  assume a: "2 \<le> a"
  have "real_of_int \<lfloor>a / 2\<rfloor> \<le> a / 2" by (rule of_int_floor_le)
  also have "a / 2 \<le> a - 1" using a by simp
  also have "a - 1 < real_of_int \<lfloor>a\<rfloor>" by linarith
  finally have "\<lfloor>a / 2\<rfloor> < \<lfloor>a\<rfloor>" by simp
  moreover have "0 < \<lfloor>a\<rfloor>" using a by linarith
  ultimately show "(a / 2, a) \<in> measure (\<lambda>a. nat \<lfloor>a\<rfloor>)" by simp
qed

declare halvings.simps [simp del]

fun doublings :: "nat \<Rightarrow> real \<Rightarrow> nat" where
  "doublings 0 a = 0"
| "doublings (Suc k) a = (if a < 1 then Suc (doublings k (2 * a)) else 0)"

definition float_exponent :: "real \<Rightarrow> int" where
  "float_exponent a = (if 1 \<le> a then int (halvings a) else - int (doublings 126 a))"

definition pow2 :: "int \<Rightarrow> real" where
  "pow2 e = (if 0 \<le> e then 2 ^ nat e else 1 / 2 ^ nat (- e))"

text \<open>The nearest integer; of two nearest integers, the even one.\<close>

definition round_half_even :: "real \<Rightarrow> int" where
  "round_half_even q =
     (if q - real_of_int \<lfloor>q\<rfloor> < 1 / 2 then \<lfloor>q\<rfloor>
      else if 1 / 2 < q - real_of_int \<lfloor>q\<rfloor> then \<lfloor>q\<rfloor> + 1
      else if even \<lfloor>q\<rfloor> then \<lfloor>q\<rfloor>
      else \<lfloor>q\<rfloor> + 1)"

text \<open>
  The \<open>float\<close> nearest to a real number, in the default rounding mode (to nearest, ties
  to even): the magnitude is rounded to a multiple of the spacing, and a magnitude that
  rounds to \<open>2 ^ 128\<close> or more overflows to an infinity.
\<close>

definition round_to_float :: "real \<Rightarrow> fl" where
  "round_to_float x =
     (let ulp = pow2 (float_exponent \<bar>x\<bar> - 23);
          magnitude = real_of_int (round_half_even (\<bar>x\<bar> / ulp)) * ulp
      in if 2 ^ 128 \<le> magnitude then (if 0 < x then PInf else NInf)
         else Fin (sgn x * magnitude))"

fun fl_float :: "fl \<Rightarrow> fl" where
  "fl_float (Fin x) = round_to_float x"
| "fl_float PInf = PInf"
| "fl_float NInf = NInf"
| "fl_float NaN = NaN"

text \<open>The sum and the difference of two floats, as a \<open>float\<close>.\<close>

definition fl_addf :: "fl \<Rightarrow> fl \<Rightarrow> fl" where
  "fl_addf x y = fl_float (fl_add x y)"

definition fl_subf :: "fl \<Rightarrow> fl \<Rightarrow> fl" where
  "fl_subf x y = fl_float (fl_sub x y)"

text \<open>
  Division of a float by an unsigned count (\<open>range_sum / width_in_points\<close>): the count is
  converted to a float that is never negative, so a zero divisor is \<open>+0\<close>, and the quotient
  is a \<open>float\<close>. A count is below \<open>2 ^ 32\<close>, so its conversion is finite; the last case is
  a finite number divided by an infinity.
\<close>

fun fl_div_count :: "fl \<Rightarrow> int \<Rightarrow> fl" where
  "fl_div_count (Fin x) n =
     (if n = 0 then (if x = 0 then NaN else if 0 < x then PInf else NInf)
      else (case round_to_float (real_of_int n) of
              Fin d \<Rightarrow> round_to_float (x / d)
            | _ \<Rightarrow> Fin 0))"
| "fl_div_count PInf n = PInf"
| "fl_div_count NInf n = NInf"
| "fl_div_count NaN n = NaN"

section \<open>Configuration and bank state\<close>

text \<open>
  The options of \<open>BankArgument\<close> that the modelled functions read. The header that
  declares them is not among the sources: the counts are taken as C \<open>int\<close>, the thresholds
  as \<open>double\<close>. Index and width arithmetic is done on \<open>int\<close>; all its values lie
  between \<open>-1\<close> and twice \<open>points_per_scan\<close>, so no 32-bit operation of the source wraps
  as long as \<open>points_per_scan\<close> is below \<open>2 ^ 30\<close>.
\<close>

record BankArgument =
  ema_alpha :: fl
  nr_scans_in_bank :: int
  points_per_scan :: int
  range_min :: fl
  range_max :: fl
  object_threshold_edge_max_delta_range :: fl
  object_threshold_min_nr_points :: int
  object_threshold_max_distance :: fl
  object_threshold_min_speed :: fl
  object_threshold_max_delta_width_in_points :: int
  object_threshold_min_confidence :: fl
  object_threshold_bank_tracking_max_delta_distance :: fl
  PC2_threshold_z_min :: fl
  PC2_threshold_z_max :: fl

text \<open>\<open>BankArgument::check\<close>: the assertions on the options above.\<close>

definition check :: "BankArgument \<Rightarrow> bool" where
  "check ba =
     (fl_le (Fin 0) (ema_alpha ba) \<and> fl_le (ema_alpha ba) (Fin 1) \<and>
      2 \<le> nr_scans_in_bank ba \<and>
      0 < points_per_scan ba \<and>
      fl_le (Fin 0) (object_threshold_edge_max_delta_range ba) \<and>
      1 \<le> object_threshold_min_nr_points ba \<and>
      fl_le (Fin 0) (object_threshold_max_distance ba) \<and>
      fl_le (Fin 0) (object_threshold_min_speed ba) \<and>
      0 \<le> object_threshold_max_delta_width_in_points ba \<and>
      fl_le (Fin 0) (object_threshold_min_confidence ba) \<and>
      fl_le (object_threshold_min_confidence ba) (Fin 1))"

record Bank =
  bank_argument :: BankArgument
  bank_ranges_ema :: "fl list list"
  bank_stamp :: "fl list"
  bank_index_put :: int
  bank_index_newest :: int
  bank_is_filled :: bool

record LaserScan =
  stamp :: fl
  ranges :: "fl list"

subsection \<open>Indices\<close>

definition initIndex :: "Bank \<Rightarrow> Bank" where
  "initIndex b = b\<lparr>bank_index_put := 1, bank_index_newest := 0\<rparr>"

text \<open>The C remainder \<open>%\<close> truncates towards zero: \<open>smod\<close>.\<close>

definition advanceIndex :: "Bank \<Rightarrow> Bank" where
  "advanceIndex b =
     b\<lparr>bank_index_put := (bank_index_put b + 1) smod nr_scans_in_bank (bank_argument b),
       bank_index_newest := (bank_index_newest b + 1) smod nr_scans_in_bank (bank_argument b)\<rparr>"

subsection \<open>LaserScan ingestion\<close>

text \<open>
  \<open>addFirstMessage\<close> (LaserScan) copies \<open>points_per_scan\<close> floats of the message into
  slot 0 (\<open>memcpy\<close> of \<open>bank_ranges_bytes\<close>), then \<open>initIndex\<close>.
\<close>

definition addFirstMessage_LaserScan :: "Bank \<Rightarrow> LaserScan \<Rightarrow> int \<times> Bank" where
  "addFirstMessage_LaserScan b msg =
     (let b1 = b\<lparr>bank_stamp := (bank_stamp b)[0 := stamp msg]\<rparr>;
          b2 = b1\<lparr>bank_ranges_ema := (bank_ranges_ema b1)
                  [0 := map (\<lambda>i. ranges msg ! i) [0..<nat (points_per_scan (bank_argument b1))]]\<rparr>;
          b3 = initIndex b2
      in (0, b3\<lparr>bank_is_filled := False\<rparr>))"

text \<open>
  \<open>addMessage\<close> (LaserScan): the blend of every range of the message with the newest slot
  is written to the put slot, whatever \<open>ema_alpha\<close> is; then the indices advance.
\<close>

definition addMessage_LaserScan :: "Bank \<Rightarrow> LaserScan \<Rightarrow> int \<times> Bank" where
  "addMessage_LaserScan b msg =
     (let b1 = b\<lparr>bank_stamp := (bank_stamp b)[nat (bank_index_put b) := stamp msg]\<rparr>;
          alpha = ema_alpha (bank_argument b1);
          alpha_prev = fl_sub (Fin 1) (ema_alpha (bank_argument b1));
          bank_newest = bank_ranges_ema b1 ! nat (bank_index_newest b1);
          b2 = b1\<lparr>bank_ranges_ema := (bank_ranges_ema b1)
                  [nat (bank_index_put b1) :=
                     map (\<lambda>i. fl_add (fl_mul alpha (ranges msg ! i))
                                      (fl_mul alpha_prev (bank_newest ! i)))
                         [0..<nat (points_per_scan (bank_argument b1))]]\<rparr>;
          b3 = advanceIndex b2
      in (0, if bank_index_put b3 < bank_index_newest b3
             then b3\<lparr>bank_is_filled := True\<rparr> else b3))"

subsection \<open>PointCloud2 ingestion\<close>

text \<open>
  A PointCloud2 message is modelled by its time stamp and the coordinates of its points, in
  the order in which the two loops of \<open>putPoints\<close> read them; \<open>readPoint\<close> and the byte
  layout of the message are not modelled.
\<close>

type_synonym point = "fl \<times> fl \<times> fl"

record PointCloud2 =
  pc_stamp :: fl
  pc_points :: "point list"

definition resetPutPoints :: "Bank \<Rightarrow> Bank" where
  "resetPutPoints b =
     (let reset_range = fl_add (object_threshold_max_distance (bank_argument b)) (Fin 10)
      in b\<lparr>bank_ranges_ema := (bank_ranges_ema b)
              [nat (bank_index_put b) := replicate (nat (points_per_scan (bank_argument b))) reset_range]\<rparr>)"

text \<open>The innermost loop of \<open>putPoints\<close>: the point is written where it is the closest.\<close>

function fill_indices :: "fl \<Rightarrow> int \<Rightarrow> int \<Rightarrow> fl list \<Rightarrow> fl list" where
  "fill_indices point_range p bank_index_point_max bank_put =
     (if p \<le> bank_index_point_max
      then fill_indices point_range (p + 1) bank_index_point_max
             (if fl_lt point_range (bank_put ! nat p) then bank_put[nat p := point_range]
              else bank_put)
      else bank_put)"
  by pat_completeness auto
termination
  by (relation "measure (\<lambda>(point_range, p, pmax, bank_put). nat (pmax + 1 - p))") auto

text \<open>
  \<open>putPoints\<close>. A point whose \<open>z\<close> is outside the band is skipped; every other point is
  counted in the unsigned 32-bit counter \<open>added_points_out\<close> and written to the bins it
  covers. The range of a point and the first and last bin it covers (clamped by the source
  to \<open>0 .. points_per_scan - 1\<close>) come from \<open>sqrt\<close>, \<open>atan\<close> and a conversion to \<open>int\<close>;
  they are the three components of the parameter \<open>project\<close>. \<open>putPoint\<close> is one round of
  the loop over the points, on the put slot and the counter.
\<close>

definition outside_volume :: "BankArgument \<Rightarrow> point \<Rightarrow> bool" where
  "outside_volume ba pt =
     (case pt of (x, y, z) \<Rightarrow> fl_lt z (PC2_threshold_z_min ba) \<or> fl_lt (PC2_threshold_z_max ba) z)"

definition putPoint ::
  "(point \<Rightarrow> fl \<times> int \<times> int) \<Rightarrow> BankArgument \<Rightarrow> point \<Rightarrow> fl list \<times> 32 word
     \<Rightarrow> fl list \<times> 32 word" where
  "putPoint project ba pt st =
     (if outside_volume ba pt then st
      else (fill_indices (fst (project pt)) (fst (snd (project pt))) (snd (snd (project pt)))
              (fst st),
            snd st + 1))"

primrec putPoints_loop ::
  "(point \<Rightarrow> fl \<times> int \<times> int) \<Rightarrow> BankArgument \<Rightarrow> point list \<Rightarrow> fl list \<times> 32 word
     \<Rightarrow> fl list \<times> 32 word" where
  "putPoints_loop project ba [] st = st"
| "putPoints_loop project ba (pt # pts) st =
     putPoints_loop project ba pts (putPoint project ba pt st)"

definition putPoints ::
  "(point \<Rightarrow> fl \<times> int \<times> int) \<Rightarrow> Bank \<Rightarrow> PointCloud2 \<Rightarrow> 32 word \<times> Bank" where
  "putPoints project b msg =
     (case putPoints_loop project (bank_argument b) (pc_points msg)
             (bank_ranges_ema b ! nat (bank_index_put b), 0) of
        (bank_put, added_points_out) \<Rightarrow>
          (added_points_out,
           b\<lparr>bank_ranges_ema := (bank_ranges_ema b)[nat (bank_index_put b) := bank_put]\<rparr>))"

text \<open>\<open>emaPutMessage\<close>: the blend is skipped unless \<open>ema_alpha\<close> is below 1.\<close>

definition emaPutMessage :: "Bank \<Rightarrow> Bank" where
  "emaPutMessage b =
     (let alpha = ema_alpha (bank_argument b)
      in if fl_lt alpha (Fin 1)
         then (let alpha_prev = fl_sub (Fin 1) alpha;
                   bank_put = bank_ranges_ema b ! nat (bank_index_put b);
                   bank_prev = bank_ranges_ema b ! nat (bank_index_newest b)
               in b\<lparr>bank_ranges_ema := (bank_ranges_ema b)
                       [nat (bank_index_put b) :=
                          map (\<lambda>i. fl_add (fl_mul alpha (bank_put ! i))
                                           (fl_mul alpha_prev (bank_prev ! i)))
                              [0..<nat (points_per_scan (bank_argument b))]]\<rparr>)
         else b)"

definition addFirstMessage_PointCloud2 ::
  "(point \<Rightarrow> fl \<times> int \<times> int) \<Rightarrow> Bank \<Rightarrow> PointCloud2 \<Rightarrow> int \<times> Bank" where
  "addFirstMessage_PointCloud2 project b msg =
     (let b1 = b\<lparr>bank_stamp := (bank_stamp b)[0 := pc_stamp msg]\<rparr>;
          b2 = b1\<lparr>bank_index_put := 0\<rparr>;
          b3 = resetPutPoints b2
      in case putPoints project b3 msg of
           (added_points, b4) \<Rightarrow>
             if added_points = 0 then (- 1, b4)
             else (0, (initIndex b4)\<lparr>bank_is_filled := False\<rparr>))"

definition addMessage_PointCloud2 ::
  "(point \<Rightarrow> fl \<times> int \<times> int) \<Rightarrow> Bank \<Rightarrow> PointCloud2 \<Rightarrow> int \<times> Bank" where
  "addMessage_PointCloud2 project b msg =
     (let b1 = b\<lparr>bank_stamp := (bank_stamp b)[nat (bank_index_put b) := pc_stamp msg]\<rparr>;
          b2 = resetPutPoints b1
      in case putPoints project b2 msg of
           (added_points, b3) \<Rightarrow>
             if added_points = 0 then (- 1, b3)
             else (let b4 = emaPutMessage b3;
                       b5 = advanceIndex b4
                   in (0, if bank_index_put b5 < bank_index_newest b5
                          then b5\<lparr>bank_is_filled := True\<rparr> else b5)))"

section \<open>Tracking an object through the bank\<close>

text \<open>
  The six output parameters of \<open>getOldIndices\<close>, and the value it writes through them when
  no object is found.
\<close>

record old_indices =
  index_min_old :: int
  index_mean_old :: int
  index_max_old :: int
  range_sum_old :: fl
  range_at_min_index_old :: fl
  range_at_max_index_old :: fl

definition not_found :: old_indices where
  "not_found =
     \<lparr>index_min_old = - 1, index_mean_old = - 1, index_max_old = - 1,
      range_sum_old = Fin 0, range_at_min_index_old = Fin 0, range_at_max_index_old = Fin 0\<rparr>"

text \<open>
  The two search loops of \<open>getOldIndices\<close>, on the index \<open>i\<close> and the variables they
  update: the end index found so far, \<open>prev_range\<close> and \<open>range_sum\<close>. The parameters
  \<open>range_min\<close> and \<open>range_max\<close> of \<open>getOldIndices\<close> are written \<open>rmin\<close> and \<open>rmax\<close>, the
  names being those of two options. The difference \<open>range - prev_range\<close> and the sum
  \<open>range_sum += range\<close> are \<open>float\<close> operations.
\<close>

function search_lower ::
  "BankArgument \<Rightarrow> fl \<Rightarrow> fl \<Rightarrow> fl list \<Rightarrow> int \<Rightarrow> int \<times> fl \<times> fl \<Rightarrow> int \<times> fl \<times> fl" where
  "search_lower ba rmin rmax slot i (left, prev_range, range_sum) =
     (if 0 \<le> i
      then (let range_i = slot ! nat i
            in if fl_le rmin range_i \<and> fl_le range_i rmax \<and>
                  fl_le (fl_abs (fl_subf range_i prev_range))
                    (object_threshold_edge_max_delta_range ba)
               then search_lower ba rmin rmax slot (i - 1) (i, range_i, fl_addf range_sum range_i)
               else (left, prev_range, range_sum))
      else (left, prev_range, range_sum))"
  by pat_completeness auto
termination
  by (relation "measure (\<lambda>(ba, rmin, rmax, slot, i, st). nat (i + 1))") auto

declare search_lower.simps [simp del]

function search_higher ::
  "BankArgument \<Rightarrow> fl \<Rightarrow> fl \<Rightarrow> fl list \<Rightarrow> int \<Rightarrow> int \<times> fl \<times> fl \<Rightarrow> int \<times> fl \<times> fl" where
  "search_higher ba rmin rmax slot i (right, prev_range, range_sum) =
     (if i < points_per_scan ba
      then (let range_i = slot ! nat i
            in if fl_le rmin range_i \<and> fl_le range_i rmax \<and>
                  fl_le (fl_abs (fl_subf range_i prev_range))
                    (object_threshold_edge_max_delta_range ba)
               then search_higher ba rmin rmax slot (i + 1) (i, range_i, fl_addf range_sum range_i)
               else (right, prev_range, range_sum))
      else (right, prev_range, range_sum))"
  by pat_completeness auto
termination
  by (relation "measure (\<lambda>(ba, rmin, rmax, slot, i, st). nat (points_per_scan ba - i))") auto

declare search_higher.simps [simp del]

text \<open>
  The object around \<open>index_mean\<close> in one slot, for a range at \<open>index_mean\<close> that has passed
  the range check: \<open>left\<close>, \<open>right\<close>, \<open>range_sum\<close>, and the ranges at \<open>left\<close> and at
  \<open>right\<close>.
\<close>

definition expand_object ::
  "BankArgument \<Rightarrow> fl \<Rightarrow> fl \<Rightarrow> fl list \<Rightarrow> int \<Rightarrow> int \<times> int \<times> fl \<times> fl \<times> fl" where
  "expand_object ba rmin rmax slot m =
     (case search_lower ba rmin rmax slot (m - 1) (m, slot ! nat m, slot ! nat m) of
        (left, range_at_min, range_sum_lower) \<Rightarrow>
          (case search_higher ba rmin rmax slot (m + 1) (m, slot ! nat m, range_sum_lower) of
             (right, range_at_max, range_sum) \<Rightarrow>
               (left, right, range_sum, range_at_min, range_at_max)))"

text \<open>
  The difference of the mean ranges of two objects, as the source computes it: two
  divisions and a subtraction, all on \<open>float\<close>, and the absolute value.
\<close>

definition mean_range_delta :: "int \<Rightarrow> int \<Rightarrow> fl \<Rightarrow> fl \<Rightarrow> fl" where
  "mean_range_delta width_in_points object_width range_sum range_sum_newer =
     fl_abs (fl_subf (fl_div_count range_sum width_in_points)
                     (fl_div_count range_sum_newer object_width))"

text \<open>
  The test "Did we find a valid object?", in its negated form as the source has it. The
  widths are unsigned in the source and their difference goes through \<open>abs\<close> on \<open>int\<close>;
  for widths below \<open>2 ^ 31\<close> that is the absolute difference.
\<close>

definition no_valid_object :: "BankArgument \<Rightarrow> int \<Rightarrow> int \<Rightarrow> fl \<Rightarrow> fl \<Rightarrow> bool" where
  "no_valid_object ba width_in_points object_width range_sum range_sum_newer =
     (width_in_points < object_threshold_min_nr_points ba \<or>
      object_threshold_max_delta_width_in_points ba < \<bar>width_in_points - object_width\<bar> \<or>
      fl_lt (object_threshold_bank_tracking_max_delta_distance ba)
        (mean_range_delta width_in_points object_width range_sum range_sum_newer))"

text \<open>
  The arguments of \<open>getOldIndices\<close> that change from one call to the next, with the values
  behind the six output pointers. The three counters are unsigned 32-bit integers;
  \<open>index_mean\<close> and \<open>object_width_in_points\<close>, unsigned as well, are an index and a width
  and are kept as \<open>int\<close> like all index arithmetic.
\<close>

record tracker_call =
  object_width_in_points :: int
  current_level :: int
  levels_searched :: "32 word"
  index_mean :: int
  consecutive_failures_to_find_object :: "32 word"
  outputs :: old_indices

datatype tracker_step = Return old_indices | Recurse tracker_call

text \<open>
  One call of \<open>getOldIndices\<close> up to its last statement: it returns with the outputs as
  they then are, or it ends in the recursive call with the given arguments.
\<close>

definition getOldIndices_level ::
  "BankArgument \<Rightarrow> fl list list \<Rightarrow> fl \<Rightarrow> fl \<Rightarrow> 32 word \<Rightarrow> tracker_call \<Rightarrow> tracker_step" where
  "getOldIndices_level ba bank rmin rmax threshold c =
     (if levels_searched c = word_of_int (nr_scans_in_bank ba) then Return (outputs c)
      else
        (let slot = bank ! nat (current_level c);
             range_at_mean = slot ! nat (index_mean c)
         in if fl_lt range_at_mean rmin \<or> fl_lt rmax range_at_mean then Return not_found
            else
              (case expand_object ba rmin rmax slot (index_mean c) of
                 (left, right, range_sum, range_at_min, range_at_max) \<Rightarrow>
                   (let width_in_points = right - left + 1;
                        failed = no_valid_object ba width_in_points (object_width_in_points c)
                                   range_sum (range_sum_old (outputs c));
                        misses = (if failed then consecutive_failures_to_find_object c + 1 else 0)
                    in if failed \<and> threshold < misses then Return not_found
                       else Recurse
                         \<lparr>object_width_in_points = width_in_points,
                          current_level =
                            (if current_level c - 1 < 0 then nr_scans_in_bank ba - 1
                             else current_level c - 1),
                          levels_searched = levels_searched c + 1,
                          index_mean = (right + left) div 2,
                          consecutive_failures_to_find_object = misses,
                          outputs =
                            \<lparr>index_min_old = left, index_mean_old = (right + left) div 2,
                             index_max_old = right, range_sum_old = range_sum,
                             range_at_min_index_old = range_at_min,
                             range_at_max_index_old = range_at_max\<rparr>\<rparr>))))"

lemma getOldIndices_level_Recurse:
  assumes "getOldIndices_level ba bank rmin rmax threshold c = Recurse c'"
  shows "levels_searched c \<noteq> word_of_int (nr_scans_in_bank ba) \<and>
         levels_searched c' = levels_searched c + 1"
  using assms
  by (auto simp: getOldIndices_level_def Let_def split: if_splits prod.splits)

lemma levels_left_decrease:
  fixes n l :: "32 word"
  assumes "l \<noteq> n"
  shows "unat (n - (l + 1)) < unat (n - l)"
proof -
  have "n - l \<noteq> 0" using assms by simp
  then have "unat (n - l - 1) < unat (n - l)"
    by (simp add: unat_minus_one unat_gt_0)
  then show ?thesis by (simp add: diff_diff_add add.commute)
qed

text \<open>
  \<open>getOldIndices\<close>. The recursion ends: \<open>levels_searched\<close> counts up, modulo \<open>2 ^ 32\<close>, until
  it is \<open>nr_scans_in_bank\<close>.
\<close>

function getOldIndices ::
  "BankArgument \<Rightarrow> fl list list \<Rightarrow> fl \<Rightarrow> fl \<Rightarrow> 32 word \<Rightarrow> tracker_call \<Rightarrow> old_indices" where
  "getOldIndices ba bank rmin rmax threshold c =
     (case getOldIndices_level ba bank rmin rmax threshold c of
        Return out \<Rightarrow> out
      | Recurse c' \<Rightarrow> getOldIndices ba bank rmin rmax threshold c')"
  by pat_completeness auto
termination
proof (relation "measure (\<lambda>(ba, bank, rmin, rmax, threshold, c).
                   unat (word_of_int (nr_scans_in_bank ba) - levels_searched c))")
  show "wf (measure (\<lambda>(ba, bank, rmin, rmax, threshold, c).
              unat ((word_of_int (nr_scans_in_bank ba) :: 32 word) - levels_searched c)))"
    by simp
next
  fix ba bank rmin rmax threshold c c'
  assume "getOldIndices_level ba bank rmin rmax threshold c = Recurse c'"
  then have "levels_searched c \<noteq> word_of_int (nr_scans_in_bank ba)"
    and "levels_searched c' = levels_searched c + 1"
    using getOldIndices_level_Recurse by blast+
  then show "((ba, bank, rmin, rmax, threshold, c'), (ba, bank, rmin, rmax, threshold, c))
             \<in> measure (\<lambda>(ba, bank, rmin, rmax, threshold, c).
                   unat (word_of_int (nr_scans_in_bank ba) - levels_searched c))"
    by (simp add: levels_left_decrease)
qed

declare getOldIndices.simps [simp del]


section \<open>Finding and reporting moving objects\<close>

text \<open>
  The variables of the inner loop of \<open>findAndReportMovingObjects\<close>, which counts the points
  of the object that starts at \<open>i\<close>. They are of type \<open>float\<close>, and so are the difference
  \<open>prev_range - range_j\<close> and the sum \<open>object_range_sum += range_j\<close>.
\<close>

record object_scan =
  nr_object_points :: int
  object_range_sum :: fl
  object_range_min :: fl
  object_range_min_index :: int
  object_range_max :: fl
  object_range_max_index :: int
  prev_range :: fl

function count_object_points ::
  "BankArgument \<Rightarrow> fl list \<Rightarrow> int \<Rightarrow> object_scan \<Rightarrow> object_scan" where
  "count_object_points ba slot j s =
     (if j < points_per_scan ba
      then (let range_j = slot ! nat j
            in if fl_le (range_min ba) range_j \<and> fl_le range_j (range_max ba) \<and>
                  fl_le (fl_abs (fl_subf (prev_range s) range_j))
                    (object_threshold_edge_max_delta_range ba)
               then count_object_points ba slot (j + 1)
                      ((if fl_lt range_j (object_range_min s)
                        then s\<lparr>object_range_min := range_j, object_range_min_index := j\<rparr>
                        else if fl_lt (object_range_max s) range_j
                        then s\<lparr>object_range_max := range_j, object_range_max_index := j\<rparr>
                        else s)
                       \<lparr>nr_object_points := nr_object_points s + 1,
                        object_range_sum := fl_addf (object_range_sum s) range_j,
                        prev_range := range_j\<rparr>)
               else s)
      else s)"
  by pat_completeness auto
termination
  by (relation "measure (\<lambda>(ba, slot, j, s). nat (points_per_scan ba - j))") auto

declare count_object_points.simps [simp del]

lemma count_object_points_grows:
  "nr_object_points s \<le> nr_object_points (count_object_points ba slot j s)"
proof (induction ba slot j s rule: count_object_points.induct)
  case (1 ba slot j s)
  show ?case
  proof (cases "j < points_per_scan ba \<and>
                fl_le (range_min ba) (slot ! nat j) \<and> fl_le (slot ! nat j) (range_max ba) \<and>
                fl_le (fl_abs (fl_subf (prev_range s) (slot ! nat j)))
                  (object_threshold_edge_max_delta_range ba)")
    case True
    with "1.IH" [OF _ refl] show ?thesis
      by (subst count_object_points.simps) (auto simp: Let_def)
  next
    case False
    then show ?thesis by (subst count_object_points.simps) (auto simp: Let_def)
  qed
qed

text \<open>
  The outer loop, as far as it finds objects: the index \<open>i\<close> at which each object starts,
  with the variables of the inner loop when it has ended. The bounds of both range checks
  are the options \<open>range_min\<close> and \<open>range_max\<close>. What the loop does with an object does not
  change \<open>i\<close> or the bank, and is \<open>report_object\<close> below.
\<close>

function find_objects :: "BankArgument \<Rightarrow> fl list \<Rightarrow> int \<Rightarrow> (int \<times> object_scan) list" where
  "find_objects ba slot i =
     (if i < points_per_scan ba
      then (let range_i = slot ! nat i
            in if fl_lt range_i (range_min ba) \<or> fl_lt (range_max ba) range_i
               then find_objects ba slot (i + 1)
               else (let s = count_object_points ba slot (i + 1)
                               \<lparr>nr_object_points = 1, object_range_sum = range_i,
                                object_range_min = range_i, object_range_min_index = i,
                                object_range_max = range_i, object_range_max_index = i,
                                prev_range = range_i\<rparr>
                     in (i, s) # find_objects ba slot (i + nr_object_points s)))
      else [])"
  by pat_completeness auto
termination
proof (relation "measure (\<lambda>(ba, slot, i). nat (points_per_scan ba - i))")
  show "wf (measure (\<lambda>(ba, slot, i). nat (points_per_scan ba - i)))" by simp
next
  fix ba :: BankArgument and slot :: "fl list" and i :: int and x
  assume "i < points_per_scan ba"
  then show "((ba, slot, i + 1), (ba, slot, i))
             \<in> measure (\<lambda>(ba, slot, i). nat (points_per_scan ba - i))"
    by simp
next
  fix ba :: BankArgument and slot :: "fl list" and i :: int and x xa
  assume i: "i < points_per_scan ba"
    and xa: "xa = count_object_points ba slot (i + 1)
               \<lparr>nr_object_points = 1, object_range_sum = x, object_range_min = x,
                object_range_min_index = i, object_range_max = x, object_range_max_index = i,
                prev_range = x\<rparr>"
  have "1 \<le> nr_object_points xa"
    using count_object_points_grows
      [of "\<lparr>nr_object_points = 1, object_range_sum = x, object_range_min = x,
            object_range_min_index = i, object_range_max = x, object_range_max_index = i,
            prev_range = x\<rparr>" ba slot "i + 1"]
    by (simp add: xa)
  with i show "((ba, slot, i + nr_object_points xa), (ba, slot, i))
               \<in> measure (\<lambda>(ba, slot, i). nat (points_per_scan ba - i))"
    by simp
qed

declare find_objects.simps [simp del]

text \<open>
  The call of \<open>getOldIndices\<close> for an object of the newest slot. The bounds handed to the
  tracker are two local variables of type \<open>float\<close>: the option \<open>range_min\<close>, and the
  smaller of \<open>range_max\<close> and \<open>object_threshold_max_distance\<close>. The tolerance for misses
  is 0.
\<close>

definition tracking_range_min :: "BankArgument \<Rightarrow> fl" where
  "tracking_range_min ba = fl_float (range_min ba)"

definition tracking_range_max :: "BankArgument \<Rightarrow> fl" where
  "tracking_range_max ba =
     fl_float (if fl_lt (range_max ba) (object_threshold_max_distance ba) then range_max ba
               else object_threshold_max_distance ba)"

definition first_call :: "BankArgument \<Rightarrow> int \<Rightarrow> int \<times> object_scan \<Rightarrow> tracker_call" where
  "first_call ba newest obj =
     (let index_min = fst obj;
          index_max = fst obj + nr_object_points (snd obj) - 1
      in \<lparr>object_width_in_points = index_max - index_min + 1,
          current_level = (if newest - 1 < 0 then nr_scans_in_bank ba - 1 else newest - 1),
          levels_searched = 1,
          index_mean = (index_min + index_max) div 2,
          consecutive_failures_to_find_object = 0,
          outputs =
            \<lparr>index_min_old = - 1, index_mean_old = - 1, index_max_old = - 1,
             range_sum_old = object_range_sum (snd obj),
             range_at_min_index_old = Fin 0, range_at_max_index_old = Fin 0\<rparr>\<rparr>)"

definition track_object ::
  "BankArgument \<Rightarrow> fl list list \<Rightarrow> int \<Rightarrow> int \<times> object_scan \<Rightarrow> old_indices" where
  "track_object ba bank newest obj =
     getOldIndices ba bank (tracking_range_min ba) (tracking_range_max ba) 0
       (first_call ba newest obj)"

text \<open>
  Of a \<open>MovingObject\<close> the model keeps the four speeds and the confidence. Positions,
  velocities and speeds come from the transform listener and from trigonometry; they are
  the parameter \<open>kinematics\<close>, a function of the bank, the object and its old indices. The
  user-defined \<open>calculateConfidence\<close> is the parameter \<open>confidence_of\<close>.
\<close>

record MovingObject =
  speed :: fl
  speed_in_map_frame :: fl
  speed_in_fixed_frame :: fl
  speed_in_base_frame :: fl
  confidence :: fl

definition report_object ::
  "(Bank \<Rightarrow> int \<times> object_scan \<Rightarrow> old_indices \<Rightarrow> MovingObject) \<Rightarrow>
   (Bank \<Rightarrow> int \<times> object_scan \<Rightarrow> old_indices \<Rightarrow> MovingObject \<Rightarrow> fl) \<Rightarrow>
   Bank \<Rightarrow> MovingObject list \<Rightarrow> int \<times> object_scan \<Rightarrow> MovingObject list" where
  "report_object kinematics confidence_of b moa obj =
     (let ba = bank_argument b
      in if object_threshold_min_nr_points ba \<le> nr_object_points (snd obj)
         then (let old = track_object ba (bank_ranges_ema b) (bank_index_newest b) obj
               in if 0 \<le> index_mean_old old
                  then (let mo = kinematics b obj old
                        in if fl_le (object_threshold_min_speed ba) (speed mo) \<or>
                              fl_le (object_threshold_min_speed ba) (speed_in_map_frame mo) \<or>
                              fl_le (object_threshold_min_speed ba) (speed_in_fixed_frame mo) \<or>
                              fl_le (object_threshold_min_speed ba) (speed_in_base_frame mo)
                           then (let c0 = confidence_of b obj old mo;
                                     c1 = (if fl_lt c0 (Fin 0) then Fin 0 else c0);
                                     c2 = (if fl_lt c1 (Fin 1) then c1 else Fin 1);
                                     mo1 = mo\<lparr>confidence := c2\<rparr>
                                 in if fl_le (object_threshold_min_confidence ba) (confidence mo1)
                                    then moa @ [mo1]
                                    else moa)
                           else moa)
                  else moa)
         else moa)"

text \<open>\<open>findAndReportMovingObjects\<close>: the objects of the array it publishes.\<close>

definition findAndReportMovingObjects ::
  "(Bank \<Rightarrow> int \<times> object_scan \<Rightarrow> old_indices \<Rightarrow> MovingObject) \<Rightarrow>
   (Bank \<Rightarrow> int \<times> object_scan \<Rightarrow> old_indices \<Rightarrow> MovingObject \<Rightarrow> fl) \<Rightarrow>
   Bank \<Rightarrow> MovingObject list" where
  "findAndReportMovingObjects kinematics confidence_of b =
     (if \<not> bank_is_filled b then []
      else foldl (report_object kinematics confidence_of b) []
             (find_objects (bank_argument b)
                (bank_ranges_ema b ! nat (bank_index_newest b)) 0))"


section \<open>Properties of the rounding\<close>

text \<open>Rounding is symmetric, so the magnitude of a difference does not depend on its order.\<close>

lemma round_to_float_minus: "round_to_float (- x) = fl_neg (round_to_float x)"
proof (cases "x = 0")
  case True
  then show ?thesis by (simp add: round_to_float_def round_half_even_def Let_def)
next
  case False
  then show ?thesis by (simp add: round_to_float_def Let_def)
qed

lemma fl_float_neg: "fl_float (fl_neg x) = fl_neg (fl_float x)"
  by (cases x) (simp_all add: round_to_float_minus)

lemma fl_abs_neg: "fl_abs (fl_neg x) = fl_abs x"
  by (cases x) simp_all

lemma fl_sub_swap: "fl_sub y x = fl_neg (fl_sub x y)"
  by (cases x; cases y) (simp_all add: fl_sub_def)

lemma fl_abs_subf_commute: "fl_abs (fl_subf x y) = fl_abs (fl_subf y x)"
  unfolding fl_subf_def by (subst fl_sub_swap) (simp add: fl_float_neg fl_abs_neg)

text \<open>Small integers are floats: rounding leaves them as they are.\<close>

lemmas round_to_float_simps =
  round_to_float_def float_exponent_def halvings.simps pow2_def round_half_even_def Let_def

lemma round_to_float_values:
  "round_to_float 0 = Fin 0"
  "round_to_float 1 = Fin 1"
  "round_to_float 2 = Fin 2"
  "round_to_float 3 = Fin 3"
  "round_to_float 4 = Fin 4"
  "round_to_float 5 = Fin 5"
  "round_to_float 6 = Fin 6"
  "round_to_float 8 = Fin 8"
  "round_to_float 9 = Fin 9"
  "round_to_float 10 = Fin 10"
  "round_to_float 13 = Fin 13"
  by (simp_all add: round_to_float_simps)

text \<open>Values that are rounded, and floats between two integers that are not.\<close>

lemma round_to_float_examples:
  "round_to_float (10 / 3) = Fin (13981013 / 4194304)"
  "round_to_float (13 / 3) = Fin (9087659 / 2097152)"
  "round_to_float (4194305 / 4194304) = Fin (4194305 / 4194304)"
  "round_to_float (37748737 / 4194304) = Fin 9"
  "round_to_float (1 / 4194304) = Fin (1 / 4194304)"
  by (simp_all add: round_to_float_simps eval_nat_numeral)

lemmas float_ops =
  fl_subf_def fl_addf_def fl_sub_def mean_range_delta_def round_to_float_minus
  round_to_float_values


section \<open>Properties of the index bookkeeping\<close>

text \<open>Example values for the closed instances below.\<close>

definition ex_argument :: BankArgument where
  "ex_argument =
     \<lparr>ema_alpha = Fin 1, nr_scans_in_bank = 3, points_per_scan = 2,
      range_min = Fin 1, range_max = Fin 10,
      object_threshold_edge_max_delta_range = Fin 1,
      object_threshold_min_nr_points = 1,
      object_threshold_max_distance = Fin 2,
      object_threshold_min_speed = Fin 1,
      object_threshold_max_delta_width_in_points = 5,
      object_threshold_min_confidence = Fin 0,
      object_threshold_bank_tracking_max_delta_distance = Fin 1,
      PC2_threshold_z_min = Fin 0, PC2_threshold_z_max = Fin 1\<rparr>"

definition ex_bank :: Bank where
  "ex_bank =
     \<lparr>bank_argument = ex_argument,
      bank_ranges_ema = [[Fin 0, Fin 0], [Fin 0, Fin 0], [Fin 0, Fin 0]],
      bank_stamp = [Fin 0, Fin 0, Fin 0],
      bank_index_put = - 1, bank_index_newest = - 1, bank_is_filled = False\<rparr>"

definition ex_scan :: LaserScan where
  "ex_scan = \<lparr>stamp = Fin 1, ranges = [Fin 2, Fin 2]\<rparr>"

definition ex_cloud :: PointCloud2 where
  "ex_cloud = \<lparr>pc_stamp = Fin 1, pc_points = [(Fin 1, Fin 0, Fin 0), (Fin 1, Fin 0, Fin 5)]\<rparr>"

definition ex_project :: "point \<Rightarrow> fl \<times> int \<times> int" where
  "ex_project pt = (case pt of (x, y, z) \<Rightarrow> (x, 0, 1))"

text \<open>
  The invariant of the two indices: put is the successor of newest modulo the depth, and
  both are valid slot numbers.
\<close>

definition index_inv :: "Bank \<Rightarrow> bool" where
  "index_inv b =
     (bank_index_put b = (bank_index_newest b + 1) mod nr_scans_in_bank (bank_argument b) \<and>
      0 \<le> bank_index_put b \<and> bank_index_put b < nr_scans_in_bank (bank_argument b) \<and>
      0 \<le> bank_index_newest b \<and> bank_index_newest b < nr_scans_in_bank (bank_argument b))"

lemma smod_nonneg: "0 \<le> a \<Longrightarrow> 0 < b \<Longrightarrow> (a::int) smod b = a mod b"
  by (simp add: smod_int_alt_def sgn_if)

lemma index_inv_initIndex:
  "2 \<le> nr_scans_in_bank (bank_argument b) \<Longrightarrow> index_inv (initIndex b)"
  by (simp add: index_inv_def initIndex_def)

lemma index_inv_advanceIndex:
  assumes "index_inv b"
  shows "index_inv (advanceIndex b)"
proof -
  define n where "n = nr_scans_in_bank (bank_argument b)"
  define p where "p = bank_index_put b"
  define q where "q = bank_index_newest b"
  from assms have b: "p = (q + 1) mod n" "0 \<le> p" "p < n" "0 \<le> q" "q < n"
    by (simp_all add: index_inv_def n_def p_def q_def)
  then have n: "0 < n" by linarith
  have p': "(p + 1) smod n = (p + 1) mod n" using b(2) n by (simp add: smod_nonneg)
  have q': "(q + 1) smod n = p" using b(1,4) n by (simp add: smod_nonneg)
  have "(p + 1) smod n = ((q + 1) smod n + 1) mod n" by (simp only: p' q')
  moreover have "0 \<le> (p + 1) smod n" "(p + 1) smod n < n" using n by (simp_all add: p')
  moreover have "0 \<le> (q + 1) smod n" "(q + 1) smod n < n" using b(2,3) by (simp_all only: q')
  ultimately show ?thesis
    by (simp add: index_inv_def advanceIndex_def n_def p_def q_def)
qed

lemma putPoints_frame:
  "bank_argument (snd (putPoints project b msg)) = bank_argument b"
  "bank_index_put (snd (putPoints project b msg)) = bank_index_put b"
  "bank_index_newest (snd (putPoints project b msg)) = bank_index_newest b"
  "bank_is_filled (snd (putPoints project b msg)) = bank_is_filled b"
  "bank_stamp (snd (putPoints project b msg)) = bank_stamp b"
  by (simp_all add: putPoints_def split: prod.splits)

lemma resetPutPoints_frame:
  "bank_argument (resetPutPoints b) = bank_argument b"
  "bank_index_put (resetPutPoints b) = bank_index_put b"
  "bank_index_newest (resetPutPoints b) = bank_index_newest b"
  "bank_is_filled (resetPutPoints b) = bank_is_filled b"
  "bank_stamp (resetPutPoints b) = bank_stamp b"
  by (simp_all add: resetPutPoints_def Let_def)

lemma emaPutMessage_frame:
  "bank_argument (emaPutMessage b) = bank_argument b"
  "bank_index_put (emaPutMessage b) = bank_index_put b"
  "bank_index_newest (emaPutMessage b) = bank_index_newest b"
  "bank_is_filled (emaPutMessage b) = bank_is_filled b"
  "bank_stamp (emaPutMessage b) = bank_stamp b"
  by (simp_all add: emaPutMessage_def Let_def)

lemma index_inv_filled: "index_inv (b\<lparr>bank_is_filled := f\<rparr>) = index_inv b"
  by (simp add: index_inv_def)

lemma index_inv_addMessage_LaserScan:
  assumes "index_inv b"
  shows "index_inv (snd (addMessage_LaserScan b msg))"
proof -
  let ?b2 = "b\<lparr>bank_stamp := (bank_stamp b)[nat (bank_index_put b) := stamp msg],
      bank_ranges_ema := (bank_ranges_ema b)
        [nat (bank_index_put b) :=
           map (\<lambda>i. fl_add (fl_mul (ema_alpha (bank_argument b)) (ranges msg ! i))
                  (fl_mul (fl_sub (Fin 1) (ema_alpha (bank_argument b)))
                     (bank_ranges_ema b ! nat (bank_index_newest b) ! i)))
               [0..<nat (points_per_scan (bank_argument b))]]\<rparr>"
  have "index_inv ?b2" using assms by (simp add: index_inv_def)
  then have "index_inv (advanceIndex ?b2)" by (rule index_inv_advanceIndex)
  then show ?thesis by (simp add: addMessage_LaserScan_def Let_def index_inv_filled)
qed

lemma index_inv_addMessage_PointCloud2:
  assumes "index_inv b"
  shows "index_inv (snd (addMessage_PointCloud2 project b msg))"
proof -
  let ?b2 = "resetPutPoints
               (b\<lparr>bank_stamp := (bank_stamp b)[nat (bank_index_put b) := pc_stamp msg]\<rparr>)"
  let ?b3 = "snd (putPoints project ?b2 msg)"
  have i3: "index_inv ?b3"
    using assms by (simp add: index_inv_def putPoints_frame resetPutPoints_frame)
  then have "index_inv (emaPutMessage ?b3)"
    by (simp add: index_inv_def emaPutMessage_frame)
  then have "index_inv (advanceIndex (emaPutMessage ?b3))" by (rule index_inv_advanceIndex)
  with i3 show ?thesis
    by (cases "putPoints project ?b2 msg")
      (simp add: addMessage_PointCloud2_def Let_def index_inv_filled)
qed

lemma index_inv_addFirstMessage_PointCloud2:
  assumes "2 \<le> nr_scans_in_bank (bank_argument b)"
    and "fst (addFirstMessage_PointCloud2 project b msg) = 0"
  shows "index_inv (snd (addFirstMessage_PointCloud2 project b msg))"
proof -
  let ?b3 = "resetPutPoints
               (b\<lparr>bank_stamp := (bank_stamp b)[0 := pc_stamp msg], bank_index_put := 0\<rparr>)"
  have "2 \<le> nr_scans_in_bank (bank_argument (snd (putPoints project ?b3 msg)))"
    using assms(1) by (simp add: putPoints_frame resetPutPoints_frame)
  then have "index_inv (initIndex (snd (putPoints project ?b3 msg)))"
    by (rule index_inv_initIndex)
  with assms(2) show ?thesis
    by (cases "putPoints project ?b3 msg")
      (simp add: addFirstMessage_PointCloud2_def Let_def index_inv_filled split: if_splits)
qed

text \<open>
  Claim C10. In a bank of depth at least 2 (the depth that \<open>check\<close> asserts), \<open>initIndex\<close>
  and with it the first message of either kind establish
  \<open>bank_index_put = (bank_index_newest + 1) mod nr_scans_in_bank\<close> with both indices in
  \<open>[0, nr_scans_in_bank)\<close>, and \<open>advanceIndex\<close> and every later \<open>addMessage\<close> of either kind
  (a point cloud that is refused included) preserve it.
\<close>

theorem bank_indices_invariant:
  assumes "2 \<le> nr_scans_in_bank (bank_argument b)"
  shows "index_inv (initIndex b) \<and>
         index_inv (snd (addFirstMessage_LaserScan b scan)) \<and>
         (fst (addFirstMessage_PointCloud2 project b cloud) = 0 \<longrightarrow>
            index_inv (snd (addFirstMessage_PointCloud2 project b cloud))) \<and>
         (index_inv b \<longrightarrow>
            index_inv (advanceIndex b) \<and>
            index_inv (snd (addMessage_LaserScan b scan)) \<and>
            index_inv (snd (addMessage_PointCloud2 project b cloud)))"
proof -
  have "index_inv (initIndex b)" using assms by (rule index_inv_initIndex)
  moreover have "index_inv (snd (addFirstMessage_LaserScan b scan))"
    using assms by (simp add: addFirstMessage_LaserScan_def Let_def index_inv_def initIndex_def)
  ultimately show ?thesis
    using assms index_inv_addFirstMessage_PointCloud2 index_inv_advanceIndex
      index_inv_addMessage_LaserScan index_inv_addMessage_PointCloud2
    by blast
qed

theorem bank_indices_invariant_witness:
  "2 \<le> nr_scans_in_bank (bank_argument ex_bank) \<and>
   index_inv (initIndex ex_bank) \<and>
   index_inv (snd (addFirstMessage_LaserScan ex_bank ex_scan)) \<and>
   fst (addFirstMessage_PointCloud2 ex_project ex_bank ex_cloud) = 0 \<and>
   index_inv (snd (addFirstMessage_PointCloud2 ex_project ex_bank ex_cloud)) \<and>
   index_inv (advanceIndex (initIndex ex_bank)) \<and>
   index_inv (snd (addMessage_LaserScan (initIndex ex_bank) ex_scan)) \<and>
   index_inv (snd (addMessage_PointCloud2 ex_project (initIndex ex_bank) ex_cloud))"
proof -
  have d: "2 \<le> nr_scans_in_bank (bank_argument ex_bank)"
    by (simp add: ex_bank_def ex_argument_def)
  have d': "2 \<le> nr_scans_in_bank (bank_argument (initIndex ex_bank))"
    by (simp add: ex_bank_def ex_argument_def initIndex_def)
  have c: "fst (addFirstMessage_PointCloud2 ex_project ex_bank ex_cloud) = 0"
    by (simp add: addFirstMessage_PointCloud2_def ex_project_def ex_bank_def ex_cloud_def
      ex_argument_def putPoints_def putPoint_def outside_volume_def resetPutPoints_def Let_def)
  show ?thesis
    using d c bank_indices_invariant [OF d, of ex_scan ex_project ex_cloud]
      bank_indices_invariant [OF d', of ex_scan ex_project ex_cloud]
    by blast
qed


lemma addMessage_LaserScan_argument:
  "bank_argument (snd (addMessage_LaserScan b msg)) = bank_argument b"
  by (simp add: addMessage_LaserScan_def advanceIndex_def Let_def)

lemma addMessage_LaserScan_put:
  "bank_index_put (snd (addMessage_LaserScan b msg)) =
     (bank_index_put b + 1) smod nr_scans_in_bank (bank_argument b)"
  by (simp add: addMessage_LaserScan_def advanceIndex_def Let_def)

lemma addMessage_LaserScan_newest:
  "bank_index_newest (snd (addMessage_LaserScan b msg)) =
     (bank_index_newest b + 1) smod nr_scans_in_bank (bank_argument b)"
  by (simp add: addMessage_LaserScan_def advanceIndex_def Let_def)

lemma addMessage_LaserScan_filled:
  "bank_is_filled (snd (addMessage_LaserScan b msg)) =
     (bank_index_put (snd (addMessage_LaserScan b msg))
        < bank_index_newest (snd (addMessage_LaserScan b msg))
      \<or> bank_is_filled b)"
  by (simp add: addMessage_LaserScan_def advanceIndex_def Let_def)

lemma foldl_addMessage_LaserScan_argument:
  "bank_argument (foldl (\<lambda>b m. snd (addMessage_LaserScan b m)) b ms) = bank_argument b"
  by (induction ms arbitrary: b) (simp_all add: addMessage_LaserScan_argument)

lemma succ_mod_less:
  fixes k n :: int
  assumes "2 \<le> n"
  shows "((k + 2) mod n < (k + 1) mod n) = ((k + 2) mod n = 0)"
proof -
  define r where "r = (k + 1) mod n"
  have r: "0 \<le> r" "r < n" using assms by (simp_all add: r_def)
  have "(k + 2) mod n = (r + 1) mod n"
  proof -
    have "k + 2 = (k + 1) + 1" by simp
    then show ?thesis unfolding r_def by (metis mod_add_left_eq)
  qed
  also have "\<dots> = (if r + 1 = n then 0 else r + 1)"
    using r by (simp add: mod_pos_pos_trivial)
  finally show ?thesis using r assms unfolding r_def [symmetric] by auto
qed

lemma wrap_or_past:
  fixes k n :: int
  assumes "2 \<le> n" "0 \<le> k"
  shows "((k + 2) mod n = 0 \<or> n \<le> k + 1) = (n \<le> k + 2)"
proof (cases "n \<le> k + 1")
  case True
  then show ?thesis by simp
next
  case False
  show ?thesis
  proof (cases "k + 2 = n")
    case True
    then show ?thesis by simp
  next
    case neq: False
    with False assms have "(k + 2) mod n = k + 2" by (simp add: mod_pos_pos_trivial)
    with False neq assms show ?thesis by simp
  qed
qed

text \<open>
  Claim C1. In a bank of depth at least 2, after the first LaserScan message and
  \<open>length ms\<close> further \<open>addMessage\<close> calls, that is after \<open>length ms + 1\<close> writes, the flag
  \<open>bank_is_filled\<close> is set exactly when the number of writes has reached the depth: it is
  false before write number \<open>nr_scans_in_bank\<close>, true at it and true after every later
  write. The put index is below the newest index after exactly the writes whose number is a
  multiple of the depth, the first of which is write number \<open>nr_scans_in_bank\<close>.
\<close>

theorem filled_from_write_depth:
  assumes "2 \<le> nr_scans_in_bank (bank_argument b)"
  shows "bank_index_put
           (foldl (\<lambda>b m. snd (addMessage_LaserScan b m)) (snd (addFirstMessage_LaserScan b m0)) ms)
           = (int (length ms) + 1) mod nr_scans_in_bank (bank_argument b) \<and>
         bank_index_newest
           (foldl (\<lambda>b m. snd (addMessage_LaserScan b m)) (snd (addFirstMessage_LaserScan b m0)) ms)
           = int (length ms) mod nr_scans_in_bank (bank_argument b) \<and>
         (bank_is_filled
           (foldl (\<lambda>b m. snd (addMessage_LaserScan b m)) (snd (addFirstMessage_LaserScan b m0)) ms)
            \<longleftrightarrow> nr_scans_in_bank (bank_argument b) \<le> int (length ms) + 1) \<and>
         (bank_index_put
           (foldl (\<lambda>b m. snd (addMessage_LaserScan b m)) (snd (addFirstMessage_LaserScan b m0)) ms)
           < bank_index_newest
           (foldl (\<lambda>b m. snd (addMessage_LaserScan b m)) (snd (addFirstMessage_LaserScan b m0)) ms)
            \<longleftrightarrow> (int (length ms) + 1) mod nr_scans_in_bank (bank_argument b) = 0)"
proof (induction ms rule: rev_induct)
  case Nil
  then show ?case
    using assms by (simp add: addFirstMessage_LaserScan_def initIndex_def Let_def)
next
  case (snoc m ms)
  let ?n = "nr_scans_in_bank (bank_argument b)"
  let ?b = "foldl (\<lambda>b m. snd (addMessage_LaserScan b m)) (snd (addFirstMessage_LaserScan b m0)) ms"
  let ?k = "int (length ms)"
  have n: "2 \<le> ?n" "nr_scans_in_bank (bank_argument ?b) = ?n"
    using assms
    by (simp_all add: foldl_addMessage_LaserScan_argument addFirstMessage_LaserScan_def
        initIndex_def Let_def)
  have p: "bank_index_put (snd (addMessage_LaserScan ?b m)) = (?k + 2) mod ?n"
  proof -
    have "?k + 2 = (?k + 1) + 1" by simp
    then have "(?k + 2) mod ?n = ((?k + 1) mod ?n + 1) mod ?n" by (metis mod_add_left_eq)
    then show ?thesis using snoc n by (simp add: addMessage_LaserScan_put smod_nonneg)
  qed
  have q: "bank_index_newest (snd (addMessage_LaserScan ?b m)) = (?k + 1) mod ?n"
    using snoc n by (simp add: addMessage_LaserScan_newest smod_nonneg mod_simps)
  have lt: "((?k + 2) mod ?n < (?k + 1) mod ?n) = ((?k + 2) mod ?n = 0)"
    using n(1) by (rule succ_mod_less)
  have z: "((?k + 2) mod ?n = 0 \<or> ?n \<le> ?k + 1) = (?n \<le> ?k + 2)"
    using n(1) by (rule wrap_or_past) simp
  have f: "bank_is_filled (snd (addMessage_LaserScan ?b m)) = (?n \<le> ?k + 2)"
    using snoc by (simp add: addMessage_LaserScan_filled p q lt z)
  show ?case using p q f lt by (simp add: add.commute)
qed

theorem filled_from_write_depth_witness:
  "2 \<le> nr_scans_in_bank (bank_argument ex_bank) \<and>
   \<not> bank_is_filled (snd (addFirstMessage_LaserScan ex_bank ex_scan)) \<and>
   \<not> bank_is_filled
       (foldl (\<lambda>b m. snd (addMessage_LaserScan b m)) (snd (addFirstMessage_LaserScan ex_bank ex_scan))
          [ex_scan]) \<and>
   bank_is_filled
       (foldl (\<lambda>b m. snd (addMessage_LaserScan b m)) (snd (addFirstMessage_LaserScan ex_bank ex_scan))
          [ex_scan, ex_scan]) \<and>
   bank_is_filled
       (foldl (\<lambda>b m. snd (addMessage_LaserScan b m)) (snd (addFirstMessage_LaserScan ex_bank ex_scan))
          [ex_scan, ex_scan, ex_scan])"
proof -
  have d: "2 \<le> nr_scans_in_bank (bank_argument ex_bank)"
    by (simp add: ex_bank_def ex_argument_def)
  have n: "nr_scans_in_bank (bank_argument ex_bank) = 3"
    by (simp add: ex_bank_def ex_argument_def)
  show ?thesis
    using d filled_from_write_depth [OF d, of ex_scan "[]"]
      filled_from_write_depth [OF d, of ex_scan "[ex_scan]"]
      filled_from_write_depth [OF d, of ex_scan "[ex_scan, ex_scan]"]
      filled_from_write_depth [OF d, of ex_scan "[ex_scan, ex_scan, ex_scan]"]
    by (simp add: n)
qed


section \<open>Properties of the ingestion\<close>

lemma putPoints_loop_count:
  "snd (putPoints_loop project ba pts st) =
     snd st + of_nat (length (filter (\<lambda>pt. \<not> outside_volume ba pt) pts))"
  by (induction pts arbitrary: st) (simp_all add: putPoint_def)

lemma putPoints_loop_none:
  "(\<And>pt. pt \<in> set pts \<Longrightarrow> outside_volume ba pt) \<Longrightarrow> putPoints_loop project ba pts st = st"
  by (induction pts arbitrary: st) (simp_all add: putPoint_def)

lemma count_word_zero:
  assumes "k < 2 ^ 32"
  shows "(of_nat k = (0 :: 32 word)) = (k = 0)"
proof (cases "k = 0")
  case True
  then show ?thesis by simp
next
  case False
  then have "of_nat k \<noteq> (0 :: 32 word)" using assms by (intro of_nat_neq_0) simp_all
  with False show ?thesis by simp
qed

lemma list_update_write_back: "xs[i := xs[i := v] ! i] = xs[i := v]"
  by (cases "i < length xs") (simp_all add: list_update_beyond)

lemma fst_putPoints:
  "fst (putPoints project b msg) =
     of_nat (length (filter (\<lambda>pt. \<not> outside_volume (bank_argument b) pt) (pc_points msg)))"
proof -
  have "fst (putPoints project b msg) =
          snd (putPoints_loop project (bank_argument b) (pc_points msg)
                 (bank_ranges_ema b ! nat (bank_index_put b), 0))"
    by (simp add: putPoints_def split: prod.splits)
  then show ?thesis by (simp add: putPoints_loop_count)
qed

text \<open>
  Claim C6. For a point cloud of fewer than \<open>2 ^ 32\<close> points (the counter of
  \<open>putPoints\<close> is an unsigned 32-bit integer), \<open>addMessage\<close> returns \<open>-1\<close> exactly when no
  point of the message is inside the z band. In that case the put index, the newest index
  and the filled flag are unchanged: the bank differs from the one before the call only by
  the time stamp of the put slot and by the put slot itself, which holds the reset value in
  every bin, so that neither the blend nor the index advance has taken place.
\<close>

theorem no_points_ingested:
  assumes "length (pc_points msg) < 2 ^ 32"
  shows "(fst (addMessage_PointCloud2 project b msg) = - 1 \<longleftrightarrow>
            filter (\<lambda>pt. \<not> outside_volume (bank_argument b) pt) (pc_points msg) = []) \<and>
         (filter (\<lambda>pt. \<not> outside_volume (bank_argument b) pt) (pc_points msg) = [] \<longrightarrow>
            bank_index_put (snd (addMessage_PointCloud2 project b msg)) = bank_index_put b \<and>
            bank_index_newest (snd (addMessage_PointCloud2 project b msg)) = bank_index_newest b \<and>
            bank_is_filled (snd (addMessage_PointCloud2 project b msg)) = bank_is_filled b \<and>
            snd (addMessage_PointCloud2 project b msg) =
              b\<lparr>bank_stamp := (bank_stamp b)[nat (bank_index_put b) := pc_stamp msg],
                bank_ranges_ema := (bank_ranges_ema b)
                  [nat (bank_index_put b) :=
                     replicate (nat (points_per_scan (bank_argument b)))
                       (fl_add (object_threshold_max_distance (bank_argument b)) (Fin 10))]\<rparr>)"
proof -
  let ?acc = "filter (\<lambda>pt. \<not> outside_volume (bank_argument b) pt) (pc_points msg)"
  let ?b2 = "resetPutPoints
               (b\<lparr>bank_stamp := (bank_stamp b)[nat (bank_index_put b) := pc_stamp msg]\<rparr>)"
  let ?failed = "b\<lparr>bank_stamp := (bank_stamp b)[nat (bank_index_put b) := pc_stamp msg],
        bank_ranges_ema := (bank_ranges_ema b)
          [nat (bank_index_put b) :=
             replicate (nat (points_per_scan (bank_argument b)))
               (fl_add (object_threshold_max_distance (bank_argument b)) (Fin 10))]\<rparr>"
  have arg: "bank_argument ?b2 = bank_argument b" by (simp add: resetPutPoints_def Let_def)
  have "length ?acc \<le> length (pc_points msg)" by simp
  from this assms have "length ?acc < 2 ^ 32" by (rule le_less_trans)
  then have "(of_nat (length ?acc) = (0 :: 32 word)) = (length ?acc = 0)"
    by (rule count_word_zero)
  then have zero: "(fst (putPoints project ?b2 msg) = 0) = (?acc = [])"
    by (simp only: fst_putPoints arg length_0_conv)
  obtain a b3 where pp: "putPoints project ?b2 msg = (a, b3)"
    by (cases "putPoints project ?b2 msg")
  have a: "(a = 0) = (?acc = [])" using zero by (simp only: pp fst_conv)
  have "fst (addMessage_PointCloud2 project b msg) = (if a = 0 then - 1 else 0)"
    using pp by (simp add: addMessage_PointCloud2_def Let_def)
  then have ret: "fst (addMessage_PointCloud2 project b msg) = - 1 \<longleftrightarrow> ?acc = []"
    by (simp only: a [symmetric]) simp
  have fail: "snd (addMessage_PointCloud2 project b msg) = ?failed" if none: "?acc = []"
  proof -
    from none have "\<And>pt. pt \<in> set (pc_points msg) \<Longrightarrow> outside_volume (bank_argument b) pt"
      by (simp add: filter_empty_conv)
    then have loop: "putPoints_loop project (bank_argument b) (pc_points msg) st = st" for st
      by (rule putPoints_loop_none)
    have b2: "?b2 = ?failed" by (simp add: resetPutPoints_def Let_def)
    have "putPoints project ?b2 msg = (0, ?b2)"
      by (simp add: putPoints_def arg loop resetPutPoints_def Let_def list_update_write_back)
    then have "snd (addMessage_PointCloud2 project b msg) = ?b2"
      by (simp add: addMessage_PointCloud2_def Let_def)
    then show ?thesis by (simp only: b2)
  qed
  show ?thesis
  proof (intro conjI impI)
    show "fst (addMessage_PointCloud2 project b msg) = - 1 \<longleftrightarrow> ?acc = []" by (rule ret)
  next
    assume "?acc = []"
    then have "snd (addMessage_PointCloud2 project b msg) = ?failed" by (rule fail)
    then show "bank_index_put (snd (addMessage_PointCloud2 project b msg)) = bank_index_put b"
      by simp
  next
    assume "?acc = []"
    then have "snd (addMessage_PointCloud2 project b msg) = ?failed" by (rule fail)
    then show "bank_index_newest (snd (addMessage_PointCloud2 project b msg)) = bank_index_newest b"
      by simp
  next
    assume "?acc = []"
    then have "snd (addMessage_PointCloud2 project b msg) = ?failed" by (rule fail)
    then show "bank_is_filled (snd (addMessage_PointCloud2 project b msg)) = bank_is_filled b"
      by simp
  next
    assume "?acc = []"
    then show "snd (addMessage_PointCloud2 project b msg) = ?failed" by (rule fail)
  qed
qed

definition ex_cloud_outside :: PointCloud2 where
  "ex_cloud_outside = \<lparr>pc_stamp = Fin 2, pc_points = [(Fin 1, Fin 0, Fin 5), (Fin 1, Fin 0, Fin (- 1))]\<rparr>"

theorem no_points_ingested_witness:
  "length (pc_points ex_cloud_outside) < 2 ^ 32 \<and>
   fst (addMessage_PointCloud2 ex_project (initIndex ex_bank) ex_cloud_outside) = - 1 \<and>
   bank_index_put (snd (addMessage_PointCloud2 ex_project (initIndex ex_bank) ex_cloud_outside)) = 1 \<and>
   bank_index_newest (snd (addMessage_PointCloud2 ex_project (initIndex ex_bank) ex_cloud_outside)) = 0 \<and>
   \<not> bank_is_filled (snd (addMessage_PointCloud2 ex_project (initIndex ex_bank) ex_cloud_outside)) \<and>
   length (pc_points ex_cloud) < 2 ^ 32 \<and>
   fst (addMessage_PointCloud2 ex_project (initIndex ex_bank) ex_cloud) \<noteq> - 1"
proof -
  have l: "length (pc_points ex_cloud_outside) < 2 ^ 32" "length (pc_points ex_cloud) < 2 ^ 32"
    by (simp_all add: ex_cloud_outside_def ex_cloud_def)
  have none: "filter (\<lambda>pt. \<not> outside_volume (bank_argument (initIndex ex_bank)) pt)
                (pc_points ex_cloud_outside) = []"
    by (simp add: ex_cloud_outside_def outside_volume_def initIndex_def ex_bank_def ex_argument_def)
  have some: "filter (\<lambda>pt. \<not> outside_volume (bank_argument (initIndex ex_bank)) pt)
                (pc_points ex_cloud) \<noteq> []"
    by (simp add: ex_cloud_def outside_volume_def initIndex_def ex_bank_def ex_argument_def)
  have i: "bank_index_put (initIndex ex_bank) = 1" "bank_index_newest (initIndex ex_bank) = 0"
    "\<not> bank_is_filled (initIndex ex_bank)"
    by (simp_all add: initIndex_def ex_bank_def)
  show ?thesis
    using l none some i
      no_points_ingested [OF l(1), of ex_project "initIndex ex_bank"]
      no_points_ingested [OF l(2), of ex_project "initIndex ex_bank"]
    by simp
qed


subsection \<open>Smoothing\<close>

lemma fl_mul_one: "fl_mul (Fin 1) x = x"
  by (cases x) (simp_all add: fl_inf_times_def)

lemma fl_add_zero: "fl_add x (Fin 0) = x"
  by (cases x) simp_all

text \<open>
  With \<open>ema_alpha = 1\<close> the point-cloud path does not blend at all: the put slot keeps what
  \<open>putPoints\<close> wrote, whatever the newest slot holds.
\<close>

lemma emaPutMessage_alpha_one:
  "ema_alpha (bank_argument b) = Fin 1 \<Longrightarrow> emaPutMessage b = b"
  by (simp add: emaPutMessage_def)

lemma addMessage_PointCloud2_alpha_one:
  assumes "ema_alpha (bank_argument b) = Fin 1"
    and "fst (addMessage_PointCloud2 project b msg) = 0"
  shows "bank_ranges_ema (snd (addMessage_PointCloud2 project b msg)) =
         bank_ranges_ema (snd (putPoints project
           (resetPutPoints
              (b\<lparr>bank_stamp := (bank_stamp b)[nat (bank_index_put b) := pc_stamp msg]\<rparr>)) msg))"
proof -
  let ?b2 = "resetPutPoints
               (b\<lparr>bank_stamp := (bank_stamp b)[nat (bank_index_put b) := pc_stamp msg]\<rparr>)"
  obtain a b3 where pp: "putPoints project ?b2 msg = (a, b3)"
    by (cases "putPoints project ?b2 msg")
  have "bank_argument b3 = bank_argument b"
    using putPoints_frame(1) [of project ?b2 msg] by (simp add: pp resetPutPoints_frame)
  with assms(1) have "emaPutMessage b3 = b3" by (simp add: emaPutMessage_alpha_one)
  then show ?thesis
    using assms(2) pp
    by (simp add: addMessage_PointCloud2_def Let_def advanceIndex_def split: if_splits)
qed

text \<open>
  The LaserScan path computes \<open>1 * r + 0 * p\<close>; this is \<open>r\<close> when the previous value \<open>p\<close>
  is finite.
\<close>

lemma addMessage_LaserScan_alpha_one_finite:
  assumes "ema_alpha (bank_argument b) = Fin 1"
    and "nat (bank_index_put b) < length (bank_ranges_ema b)"
    and "\<And>i. i < nat (points_per_scan (bank_argument b)) \<Longrightarrow>
           \<exists>p. bank_ranges_ema b ! nat (bank_index_newest b) ! i = Fin p"
  shows "bank_ranges_ema (snd (addMessage_LaserScan b msg)) ! nat (bank_index_put b) =
         map (\<lambda>i. ranges msg ! i) [0..<nat (points_per_scan (bank_argument b))]"
proof -
  have "fl_add (fl_mul (Fin 1) (ranges msg ! i))
          (fl_mul (fl_sub (Fin 1) (Fin 1)) (bank_ranges_ema b ! nat (bank_index_newest b) ! i))
        = ranges msg ! i"
    if "i < nat (points_per_scan (bank_argument b))" for i
  proof -
    from assms(3) [OF that] obtain p
      where "bank_ranges_ema b ! nat (bank_index_newest b) ! i = Fin p" ..
    then show ?thesis by (simp add: fl_mul_one fl_sub_def fl_add_zero)
  qed
  then show ?thesis
    using assms(1,2)
    by (simp add: addMessage_LaserScan_def Let_def advanceIndex_def)
qed

definition ex_scan_inf :: LaserScan where
  "ex_scan_inf = \<lparr>stamp = Fin 0, ranges = [PInf, Fin 2]\<rparr>"

text \<open>
  Claim C5 fails on the LaserScan path. With \<open>ema_alpha = 1\<close>, a first scan whose first
  reading is \<open>+infinity\<close> (an out-of-range reading) and a second scan whose readings are all
  2, the put slot holds not-a-number in its first bin after the second write, since
  \<open>0 * infinity\<close> is not a number: the stored slot is not the raw input.
\<close>

theorem laser_alpha_one_infinite_previous:
  "ema_alpha (bank_argument ex_bank) = Fin 1 \<and>
   ranges ex_scan = [Fin 2, Fin 2] \<and>
   bank_ranges_ema (snd (addFirstMessage_LaserScan ex_bank ex_scan_inf)) ! 0 = [PInf, Fin 2] \<and>
   bank_index_put (snd (addFirstMessage_LaserScan ex_bank ex_scan_inf)) = 1 \<and>
   bank_ranges_ema
     (snd (addMessage_LaserScan (snd (addFirstMessage_LaserScan ex_bank ex_scan_inf)) ex_scan)) ! 1
     = [NaN, Fin 2]"
  by (simp add: addMessage_LaserScan_def addFirstMessage_LaserScan_def initIndex_def advanceIndex_def
      Let_def ex_bank_def ex_argument_def ex_scan_def ex_scan_inf_def fl_sub_def fl_inf_times_def
      numeral_2_eq_2)


lemma ema_convex:
  fixes a p n :: real
  assumes "0 \<le> a" "a \<le> 1"
  shows "min p n \<le> a * n + (1 - a) * p \<and> a * n + (1 - a) * p \<le> max p n"
proof -
  have lo: "min p n \<le> a * n + (1 - a) * p"
  proof -
    have "a * min p n \<le> a * n" "(1 - a) * min p n \<le> (1 - a) * p"
      using assms by (simp_all add: mult_left_mono)
    then have "a * min p n + (1 - a) * min p n \<le> a * n + (1 - a) * p" by (rule add_mono)
    then show ?thesis by (simp add: algebra_simps)
  qed
  have hi: "a * n + (1 - a) * p \<le> max p n"
  proof -
    have "a * n \<le> a * max p n" "(1 - a) * p \<le> (1 - a) * max p n"
      using assms by (simp_all add: mult_left_mono)
    then have "a * n + (1 - a) * p \<le> a * max p n + (1 - a) * max p n" by (rule add_mono)
    then show ?thesis by (simp add: algebra_simps)
  qed
  from lo hi show ?thesis ..
qed

text \<open>
  Claim C8, amended. For \<open>ema_alpha\<close> in \<open>[0, 1]\<close> and finite values \<open>p\<close> (the previous
  smoothed range, in the newest slot) and \<open>n\<close> (the new raw range), the value stored in the
  put slot lies in \<open>[min p n, max p n]\<close>, both when \<open>addMessage\<close> blends a LaserScan and
  when \<open>emaPutMessage\<close> blends the bins of a point cloud.
\<close>

theorem ema_between_finite:
  assumes "ema_alpha (bank_argument b) = Fin a" and "0 \<le> a" and "a \<le> 1"
    and "i < nat (points_per_scan (bank_argument b))"
    and "nat (bank_index_put b) < length (bank_ranges_ema b)"
    and "bank_ranges_ema b ! nat (bank_index_newest b) ! i = Fin p"
  shows "(ranges msg ! i = Fin n \<longrightarrow>
            (\<exists>s. bank_ranges_ema (snd (addMessage_LaserScan b msg)) ! nat (bank_index_put b) ! i
                   = Fin s \<and> min p n \<le> s \<and> s \<le> max p n)) \<and>
         (bank_ranges_ema b ! nat (bank_index_put b) ! i = Fin n \<longrightarrow>
            (\<exists>s. bank_ranges_ema (emaPutMessage b) ! nat (bank_index_put b) ! i
                   = Fin s \<and> min p n \<le> s \<and> s \<le> max p n))"
proof (intro conjI impI)
  assume n: "ranges msg ! i = Fin n"
  have "bank_ranges_ema (snd (addMessage_LaserScan b msg)) ! nat (bank_index_put b) ! i
          = Fin (a * n + (1 - a) * p)"
    using assms n by (simp add: addMessage_LaserScan_def Let_def advanceIndex_def fl_sub_def)
  with ema_convex [OF assms(2,3), of p n]
  show "\<exists>s. bank_ranges_ema (snd (addMessage_LaserScan b msg)) ! nat (bank_index_put b) ! i
               = Fin s \<and> min p n \<le> s \<and> s \<le> max p n"
    by blast
next
  assume n: "bank_ranges_ema b ! nat (bank_index_put b) ! i = Fin n"
  show "\<exists>s. bank_ranges_ema (emaPutMessage b) ! nat (bank_index_put b) ! i
               = Fin s \<and> min p n \<le> s \<and> s \<le> max p n"
  proof (cases "a < 1")
    case True
    have "bank_ranges_ema (emaPutMessage b) ! nat (bank_index_put b) ! i
            = Fin (a * n + (1 - a) * p)"
      using assms n True by (simp add: emaPutMessage_def Let_def fl_sub_def)
    with ema_convex [OF assms(2,3), of p n] show ?thesis by blast
  next
    case False
    then have "bank_ranges_ema (emaPutMessage b) ! nat (bank_index_put b) ! i = Fin n"
      using assms(1) n by (simp add: emaPutMessage_def)
    then show ?thesis by (intro exI [of _ n]) simp
  qed
qed

definition ex_bank_half :: Bank where
  "ex_bank_half =
     \<lparr>bank_argument = ex_argument\<lparr>ema_alpha := Fin (1 / 2)\<rparr>,
      bank_ranges_ema = [[Fin 1, Fin 1], [Fin 3, Fin 5], [Fin 0, Fin 0]],
      bank_stamp = [Fin 0, Fin 0, Fin 0],
      bank_index_put = 1, bank_index_newest = 0, bank_is_filled = False\<rparr>"

theorem ema_between_finite_witness:
  "ema_alpha (bank_argument ex_bank_half) = Fin (1 / 2) \<and>
   bank_ranges_ema ex_bank_half ! nat (bank_index_newest ex_bank_half) ! 0 = Fin 1 \<and>
   ranges ex_scan ! 0 = Fin 2 \<and>
   bank_ranges_ema ex_bank_half ! nat (bank_index_put ex_bank_half) ! 0 = Fin 3 \<and>
   (\<exists>s. bank_ranges_ema (snd (addMessage_LaserScan ex_bank_half ex_scan)) ! 1 ! 0 = Fin s \<and>
        1 \<le> s \<and> s \<le> 2) \<and>
   (\<exists>s. bank_ranges_ema (emaPutMessage ex_bank_half) ! 1 ! 0 = Fin s \<and> 1 \<le> s \<and> s \<le> 3)"
proof -
  have h: "ema_alpha (bank_argument ex_bank_half) = Fin (1 / 2)" "(0::real) \<le> 1 / 2"
    "(1::real) / 2 \<le> 1" "0 < nat (points_per_scan (bank_argument ex_bank_half))"
    "nat (bank_index_put ex_bank_half) < length (bank_ranges_ema ex_bank_half)"
    "bank_ranges_ema ex_bank_half ! nat (bank_index_newest ex_bank_half) ! 0 = Fin 1"
    by (simp_all add: ex_bank_half_def ex_argument_def)
  have m: "ranges ex_scan ! 0 = Fin 2"
    "bank_ranges_ema ex_bank_half ! nat (bank_index_put ex_bank_half) ! 0 = Fin 3"
    "nat (bank_index_put ex_bank_half) = 1"
    by (simp_all add: ex_scan_def ex_bank_half_def)
  show ?thesis
    using h(1,6) m ema_between_finite [OF h, where msg = ex_scan and n = 2]
      ema_between_finite [OF h, where msg = ex_scan and n = 3]
    by simp
qed

definition ex_bank_zero :: Bank where
  "ex_bank_zero =
     \<lparr>bank_argument = ex_argument\<lparr>ema_alpha := Fin 0\<rparr>,
      bank_ranges_ema = [[Fin 1, Fin 1], [Fin 0, Fin 0], [Fin 0, Fin 0]],
      bank_stamp = [Fin 0, Fin 0, Fin 0],
      bank_index_put = 1, bank_index_newest = 0, bank_is_filled = False\<rparr>"

text \<open>
  Claim C8 as stated fails when a range is not finite: with \<open>ema_alpha = 0\<close>, previous range
  1 and a new raw range of \<open>+infinity\<close>, the stored value is \<open>0 * infinity + 1 * 1\<close>, which is
  not a number and lies in no interval.
\<close>

theorem ema_between_counterexample:
  "fl_le (Fin 0) (ema_alpha (bank_argument ex_bank_zero)) \<and>
   fl_le (ema_alpha (bank_argument ex_bank_zero)) (Fin 1) \<and>
   bank_ranges_ema ex_bank_zero ! nat (bank_index_newest ex_bank_zero) ! 0 = Fin 1 \<and>
   ranges ex_scan_inf ! 0 = PInf \<and>
   bank_ranges_ema (snd (addMessage_LaserScan ex_bank_zero ex_scan_inf)) ! 1 ! 0 = NaN \<and>
   \<not> (fl_le (Fin 1)
         (bank_ranges_ema (snd (addMessage_LaserScan ex_bank_zero ex_scan_inf)) ! 1 ! 0) \<and>
       fl_le (bank_ranges_ema (snd (addMessage_LaserScan ex_bank_zero ex_scan_inf)) ! 1 ! 0)
         PInf)"
  by (simp add: addMessage_LaserScan_def advanceIndex_def Let_def ex_bank_zero_def
      ex_argument_def ex_scan_inf_def fl_sub_def fl_inf_times_def numeral_2_eq_2)


section \<open>Properties of the search for objects\<close>

text \<open>
  Claim C4 fails on the code. With \<open>range_min = 1\<close>, \<open>range_max = 10\<close> and
  \<open>object_threshold_max_distance = 2\<close>, the smaller of the two upper bounds is 2, and a
  newest slot with the two ranges 3 and 3 yields an object that starts at index 0 and
  extends over index 1: the loop checks the ranges against \<open>range_max\<close>, not against the
  smaller of \<open>range_max\<close> and \<open>object_threshold_max_distance\<close>, which only the tracker
  receives.
\<close>

theorem candidate_beyond_max_distance:
  "tracking_range_max ex_argument = Fin 2 \<and>
   range_max ex_argument = Fin 10 \<and>
   find_objects ex_argument [Fin 3, Fin 3] 0 =
     [(0, \<lparr>nr_object_points = 2, object_range_sum = Fin 6,
           object_range_min = Fin 3, object_range_min_index = 0,
           object_range_max = Fin 3, object_range_max_index = 0,
           prev_range = Fin 3\<rparr>)]"
  by (simp add: find_objects.simps count_object_points.simps tracking_range_max_def
      ex_argument_def Let_def float_ops)

lemma fl_lt_not_le: "fl_lt x y \<Longrightarrow> \<not> fl_le y x"
  by (cases x; cases y) simp_all

text \<open>The speed threshold: the speed in at least one frame is not below the minimum.\<close>

definition speed_gate :: "BankArgument \<Rightarrow> MovingObject \<Rightarrow> bool" where
  "speed_gate ba mo =
     (fl_le (object_threshold_min_speed ba) (speed mo) \<or>
      fl_le (object_threshold_min_speed ba) (speed_in_map_frame mo) \<or>
      fl_le (object_threshold_min_speed ba) (speed_in_fixed_frame mo) \<or>
      fl_le (object_threshold_min_speed ba) (speed_in_base_frame mo))"

lemma speed_gate_confidence: "speed_gate ba (mo\<lparr>confidence := c\<rparr>) = speed_gate ba mo"
  by (simp add: speed_gate_def)

lemma report_object_cases:
  "report_object kinematics confidence_of b moa obj = moa \<or>
   (\<exists>mo. report_object kinematics confidence_of b moa obj = moa @ [mo] \<and>
         speed_gate (bank_argument b) mo)"
  by (simp add: report_object_def Let_def speed_gate_def)

lemma foldl_report_object:
  "(\<And>mo. mo \<in> set moa \<Longrightarrow> speed_gate (bank_argument b) mo) \<Longrightarrow>
   mo \<in> set (foldl (report_object kinematics confidence_of b) moa objs) \<Longrightarrow>
   speed_gate (bank_argument b) mo"
proof (induction objs arbitrary: moa)
  case Nil
  then show ?case by simp
next
  case (Cons obj objs)
  have step: "\<And>mo. mo \<in> set (report_object kinematics confidence_of b moa obj) \<Longrightarrow>
          speed_gate (bank_argument b) mo"
    using report_object_cases [of kinematics confidence_of b moa obj] Cons.prems(1) by auto
  from Cons.prems(2)
  have "mo \<in> set (foldl (report_object kinematics confidence_of b)
                    (report_object kinematics confidence_of b moa obj) objs)"
    by simp
  with step show ?case by (rule Cons.IH)
qed

text \<open>
  Claim C7. An object whose speed in each of the four frames is below
  \<open>object_threshold_min_speed\<close> leaves the object array as it is; an object is added only
  if its speed in at least one frame meets the minimum; and every object of the array of a
  reporting cycle meets the minimum in at least one frame.
\<close>

theorem slow_objects_not_reported:
  "(fl_lt (speed (kinematics b obj
              (track_object (bank_argument b) (bank_ranges_ema b) (bank_index_newest b) obj)))
       (object_threshold_min_speed (bank_argument b)) \<and>
    fl_lt (speed_in_map_frame (kinematics b obj
              (track_object (bank_argument b) (bank_ranges_ema b) (bank_index_newest b) obj)))
       (object_threshold_min_speed (bank_argument b)) \<and>
    fl_lt (speed_in_fixed_frame (kinematics b obj
              (track_object (bank_argument b) (bank_ranges_ema b) (bank_index_newest b) obj)))
       (object_threshold_min_speed (bank_argument b)) \<and>
    fl_lt (speed_in_base_frame (kinematics b obj
              (track_object (bank_argument b) (bank_ranges_ema b) (bank_index_newest b) obj)))
       (object_threshold_min_speed (bank_argument b))
    \<longrightarrow> report_object kinematics confidence_of b moa obj = moa) \<and>
   (report_object kinematics confidence_of b moa obj \<noteq> moa \<longrightarrow>
      speed_gate (bank_argument b)
        (kinematics b obj
           (track_object (bank_argument b) (bank_ranges_ema b) (bank_index_newest b) obj))) \<and>
   (\<forall>mo \<in> set (findAndReportMovingObjects kinematics confidence_of b).
      speed_gate (bank_argument b) mo)"
proof (intro conjI impI ballI)
  let ?mo = "kinematics b obj
               (track_object (bank_argument b) (bank_ranges_ema b) (bank_index_newest b) obj)"
  assume "fl_lt (speed ?mo) (object_threshold_min_speed (bank_argument b)) \<and>
          fl_lt (speed_in_map_frame ?mo) (object_threshold_min_speed (bank_argument b)) \<and>
          fl_lt (speed_in_fixed_frame ?mo) (object_threshold_min_speed (bank_argument b)) \<and>
          fl_lt (speed_in_base_frame ?mo) (object_threshold_min_speed (bank_argument b))"
  then have "\<not> fl_le (object_threshold_min_speed (bank_argument b)) (speed ?mo)"
    "\<not> fl_le (object_threshold_min_speed (bank_argument b)) (speed_in_map_frame ?mo)"
    "\<not> fl_le (object_threshold_min_speed (bank_argument b)) (speed_in_fixed_frame ?mo)"
    "\<not> fl_le (object_threshold_min_speed (bank_argument b)) (speed_in_base_frame ?mo)"
    by (simp_all add: fl_lt_not_le)
  then show "report_object kinematics confidence_of b moa obj = moa"
    by (simp add: report_object_def Let_def)
next
  assume "report_object kinematics confidence_of b moa obj \<noteq> moa"
  then show "speed_gate (bank_argument b)
        (kinematics b obj
           (track_object (bank_argument b) (bank_ranges_ema b) (bank_index_newest b) obj))"
    by (simp add: report_object_def Let_def speed_gate_def split: if_splits)
next
  fix mo
  assume "mo \<in> set (findAndReportMovingObjects kinematics confidence_of b)"
  then have "mo \<in> set (foldl (report_object kinematics confidence_of b) []
             (find_objects (bank_argument b)
                (bank_ranges_ema b ! nat (bank_index_newest b)) 0))"
    by (simp add: findAndReportMovingObjects_def split: if_splits)
  then show "speed_gate (bank_argument b) mo"
    by (rule foldl_report_object [rotated]) simp
qed


text \<open>A filled example bank whose three slots hold the same object, and its tracking.\<close>

definition ex_bank_filled :: Bank where
  "ex_bank_filled =
     \<lparr>bank_argument = ex_argument,
      bank_ranges_ema = [[Fin 2, Fin 2], [Fin 2, Fin 2], [Fin 2, Fin 2]],
      bank_stamp = [Fin 1, Fin 2, Fin 3],
      bank_index_put = 0, bank_index_newest = 2, bank_is_filled = True\<rparr>"

definition ex_object :: "int \<times> object_scan" where
  "ex_object =
     (0, \<lparr>nr_object_points = 2, object_range_sum = Fin 4,
          object_range_min = Fin 2, object_range_min_index = 0,
          object_range_max = Fin 2, object_range_max_index = 0,
          prev_range = Fin 2\<rparr>)"

definition ex_kinematics :: "fl \<Rightarrow> Bank \<Rightarrow> int \<times> object_scan \<Rightarrow> old_indices \<Rightarrow> MovingObject" where
  "ex_kinematics v b obj old =
     \<lparr>speed = v, speed_in_map_frame = v, speed_in_fixed_frame = v,
      speed_in_base_frame = v, confidence = Fin 0\<rparr>"

definition ex_confidence :: "Bank \<Rightarrow> int \<times> object_scan \<Rightarrow> old_indices \<Rightarrow> MovingObject \<Rightarrow> fl" where
  "ex_confidence b obj old mo = Fin 1"

lemma ex_find_objects:
  "find_objects ex_argument [Fin 2, Fin 2] 0 = [ex_object]"
  by (simp add: find_objects.simps count_object_points.simps ex_argument_def ex_object_def
      Let_def float_ops)

lemma ex_track_object:
  "track_object ex_argument [[Fin 2, Fin 2], [Fin 2, Fin 2], [Fin 2, Fin 2]] 2 ex_object =
     \<lparr>index_min_old = 0, index_mean_old = 0, index_max_old = 1,
      range_sum_old = Fin 4, range_at_min_index_old = Fin 2, range_at_max_index_old = Fin 2\<rparr>"
  by (simp add: track_object_def first_call_def getOldIndices.simps getOldIndices_level_def
      expand_object_def search_lower.simps search_higher.simps no_valid_object_def
      tracking_range_min_def tracking_range_max_def ex_argument_def ex_object_def Let_def
      float_ops)


theorem slow_objects_not_reported_witness:
  "fl_lt (speed (ex_kinematics (Fin 0) ex_bank_filled ex_object
            (track_object (bank_argument ex_bank_filled) (bank_ranges_ema ex_bank_filled)
               (bank_index_newest ex_bank_filled) ex_object)))
     (object_threshold_min_speed (bank_argument ex_bank_filled)) \<and>
   report_object (ex_kinematics (Fin 0)) ex_confidence ex_bank_filled [] ex_object = [] \<and>
   report_object (ex_kinematics (Fin 2)) ex_confidence ex_bank_filled [] ex_object \<noteq> [] \<and>
   speed_gate (bank_argument ex_bank_filled)
     (ex_kinematics (Fin 2) ex_bank_filled ex_object
        (track_object (bank_argument ex_bank_filled) (bank_ranges_ema ex_bank_filled)
           (bank_index_newest ex_bank_filled) ex_object)) \<and>
   findAndReportMovingObjects (ex_kinematics (Fin 2)) ex_confidence ex_bank_filled =
     [\<lparr>speed = Fin 2, speed_in_map_frame = Fin 2, speed_in_fixed_frame = Fin 2,
       speed_in_base_frame = Fin 2, confidence = Fin 1\<rparr>] \<and>
   speed_gate (bank_argument ex_bank_filled)
     \<lparr>speed = Fin 2, speed_in_map_frame = Fin 2, speed_in_fixed_frame = Fin 2,
      speed_in_base_frame = Fin 2, confidence = Fin 1\<rparr>"
proof -
  have b: "bank_argument ex_bank_filled = ex_argument"
    "bank_ranges_ema ex_bank_filled = [[Fin 2, Fin 2], [Fin 2, Fin 2], [Fin 2, Fin 2]]"
    "bank_index_newest ex_bank_filled = 2" "bank_is_filled ex_bank_filled"
    by (simp_all add: ex_bank_filled_def)
  have a: "object_threshold_min_speed ex_argument = Fin 1"
    "object_threshold_min_nr_points ex_argument = 1"
    "object_threshold_min_confidence ex_argument = Fin 0"
    by (simp_all add: ex_argument_def)
  have n: "nr_object_points (snd ex_object) = 2" by (simp add: ex_object_def)
  have fast: "report_object (ex_kinematics (Fin 2)) ex_confidence ex_bank_filled [] ex_object =
     [\<lparr>speed = Fin 2, speed_in_map_frame = Fin 2, speed_in_fixed_frame = Fin 2,
       speed_in_base_frame = Fin 2, confidence = Fin 1\<rparr>]"
    by (simp add: report_object_def Let_def b a n ex_track_object ex_kinematics_def
        ex_confidence_def)
  have all: "findAndReportMovingObjects (ex_kinematics (Fin 2)) ex_confidence ex_bank_filled =
     [\<lparr>speed = Fin 2, speed_in_map_frame = Fin 2, speed_in_fixed_frame = Fin 2,
       speed_in_base_frame = Fin 2, confidence = Fin 1\<rparr>]"
    by (simp add: findAndReportMovingObjects_def b ex_find_objects fast numeral_2_eq_2)
  have slow: "fl_lt (speed (ex_kinematics (Fin 0) ex_bank_filled ex_object old))
                (object_threshold_min_speed (bank_argument ex_bank_filled))"
    "fl_lt (speed_in_map_frame (ex_kinematics (Fin 0) ex_bank_filled ex_object old))
                (object_threshold_min_speed (bank_argument ex_bank_filled))"
    "fl_lt (speed_in_fixed_frame (ex_kinematics (Fin 0) ex_bank_filled ex_object old))
                (object_threshold_min_speed (bank_argument ex_bank_filled))"
    "fl_lt (speed_in_base_frame (ex_kinematics (Fin 0) ex_bank_filled ex_object old))
                (object_threshold_min_speed (bank_argument ex_bank_filled))" for old
    by (simp_all add: ex_kinematics_def b a)
  show ?thesis
    using slow fast all
      slow_objects_not_reported [where kinematics = "ex_kinematics (Fin 0)"
        and b = ex_bank_filled and obj = ex_object and moa = "[]"
        and confidence_of = ex_confidence]
      slow_objects_not_reported [where kinematics = "ex_kinematics (Fin 2)"
        and b = ex_bank_filled and obj = ex_object and moa = "[]"
        and confidence_of = ex_confidence]
    by simp
qed


section \<open>Properties of the tracker\<close>

text \<open>The calls that a call of \<open>getOldIndices\<close> leads to: itself and the recursive ones.\<close>

inductive reaches ::
  "BankArgument \<Rightarrow> fl list list \<Rightarrow> fl \<Rightarrow> fl \<Rightarrow> 32 word \<Rightarrow> tracker_call \<Rightarrow> tracker_call \<Rightarrow> bool"
  for ba bank rmin rmax threshold where
  reaches_self: "reaches ba bank rmin rmax threshold c c"
| reaches_next:
    "reaches ba bank rmin rmax threshold c c' \<Longrightarrow>
     getOldIndices_level ba bank rmin rmax threshold c' = Recurse c'' \<Longrightarrow>
     reaches ba bank rmin rmax threshold c c''"

lemma getOldIndices_Return:
  "getOldIndices_level ba bank rmin rmax threshold c = Return out \<Longrightarrow>
   getOldIndices ba bank rmin rmax threshold c = out"
  by (simp add: getOldIndices.simps)

lemma getOldIndices_Recurse:
  "getOldIndices_level ba bank rmin rmax threshold c = Recurse c' \<Longrightarrow>
   getOldIndices ba bank rmin rmax threshold c = getOldIndices ba bank rmin rmax threshold c'"
  by (simp add: getOldIndices.simps)

lemma reaches_result:
  "reaches ba bank rmin rmax threshold c c' \<Longrightarrow>
   getOldIndices ba bank rmin rmax threshold c = getOldIndices ba bank rmin rmax threshold c'"
  by (induction rule: reaches.induct) (simp_all add: getOldIndices_Recurse)

lemma Recurse_no_miss:
  assumes "getOldIndices_level ba bank rmin rmax 0 c = Recurse c'"
    and "consecutive_failures_to_find_object c = 0"
  shows "consecutive_failures_to_find_object c' = 0"
  using assms
  by (auto simp: getOldIndices_level_def Let_def split: if_splits prod.splits)

lemma reaches_no_miss:
  "reaches ba bank rmin rmax 0 c c' \<Longrightarrow> consecutive_failures_to_find_object c = 0 \<Longrightarrow>
   consecutive_failures_to_find_object c' = 0"
  by (induction rule: reaches.induct) (simp_all add: Recurse_no_miss)

text \<open>
  The object that a call finds around its \<open>index_mean\<close> in its slot is not a valid
  continuation, by the test of the source on the values it computes: the object is too
  narrow, its width differs too much from the width of the object of the newer slot, or
  \<open>object_threshold_bank_tracking_max_delta_distance\<close> compares below the difference of the
  two mean ranges, which is a \<open>float\<close> computed from two \<open>float\<close> quotients.
\<close>

definition level_rejected ::
  "BankArgument \<Rightarrow> fl list list \<Rightarrow> fl \<Rightarrow> fl \<Rightarrow> tracker_call \<Rightarrow> bool" where
  "level_rejected ba bank rmin rmax c =
     (case expand_object ba rmin rmax (bank ! nat (current_level c)) (index_mean c) of
        (left, right, range_sum, range_at_min, range_at_max) \<Rightarrow>
          no_valid_object ba (right - left + 1) (object_width_in_points c) range_sum
            (range_sum_old (outputs c)))"

lemma rejected_level_returns:
  assumes "levels_searched c \<noteq> word_of_int (nr_scans_in_bank ba)"
    and "consecutive_failures_to_find_object c = 0"
    and "level_rejected ba bank rmin rmax c"
  shows "getOldIndices_level ba bank rmin rmax 0 c = Return not_found"
  using assms
  by (auto simp: getOldIndices_level_def level_rejected_def Let_def split: prod.splits)

text \<open>
  Claim C3, amended. With miss tolerance 0 and no miss counted at the start (the call in
  \<open>findAndReportMovingObjects\<close> passes 0 for both), if any call that the walk leads to,
  however many levels it has searched, finds an object that the test of the source rejects
  (\<open>level_rejected\<close>: the width is below the minimum, the widths differ by more than
  \<open>object_threshold_max_delta_width_in_points\<close>, or the difference of the mean ranges, as
  the source computes it in \<open>float\<close>, compares above
  \<open>object_threshold_bank_tracking_max_delta_distance\<close>), then \<open>getOldIndices\<close> returns with
  \<open>-1\<close> in \<open>index_min_old\<close>, \<open>index_mean_old\<close> and \<open>index_max_old\<close>.
\<close>

theorem single_miss_aborts:
  assumes "reaches ba bank rmin rmax 0 c0 c"
    and "consecutive_failures_to_find_object c0 = 0"
    and "levels_searched c \<noteq> word_of_int (nr_scans_in_bank ba)"
    and "level_rejected ba bank rmin rmax c"
  shows "getOldIndices ba bank rmin rmax 0 c0 = not_found \<and>
         index_min_old (getOldIndices ba bank rmin rmax 0 c0) = - 1 \<and>
         index_mean_old (getOldIndices ba bank rmin rmax 0 c0) = - 1 \<and>
         index_max_old (getOldIndices ba bank rmin rmax 0 c0) = - 1"
proof -
  have "consecutive_failures_to_find_object c = 0"
    using assms(1,2) by (rule reaches_no_miss)
  with assms(3) have "getOldIndices_level ba bank rmin rmax 0 c = Return not_found"
    using assms(4) by (rule rejected_level_returns)
  then have "getOldIndices ba bank rmin rmax 0 c = not_found" by (rule getOldIndices_Return)
  with reaches_result [OF assms(1)] have "getOldIndices ba bank rmin rmax 0 c0 = not_found"
    by simp
  then show ?thesis by (simp add: not_found_def)
qed

text \<open>
  Claim C9, amended. A call of \<open>getOldIndices\<close> that has not reached the base case
  (\<open>levels_searched\<close> is not \<open>nr_scans_in_bank\<close>) and finds that the range at \<open>index_mean\<close>
  of its slot compares below \<open>rmin\<close> or above \<open>rmax\<close> (the two comparisons of the source,
  neither of which holds for a range that is not a number) returns at once, without a
  recursive call and whatever the miss counter and the tolerance are, with \<open>-1\<close> in the
  three index outputs.
\<close>

theorem out_of_range_returns_at_once:
  assumes "levels_searched c \<noteq> word_of_int (nr_scans_in_bank ba)"
    and "fl_lt (bank ! nat (current_level c) ! nat (index_mean c)) rmin \<or>
         fl_lt rmax (bank ! nat (current_level c) ! nat (index_mean c))"
  shows "getOldIndices_level ba bank rmin rmax threshold c = Return not_found \<and>
         getOldIndices ba bank rmin rmax threshold c = not_found \<and>
         index_min_old (getOldIndices ba bank rmin rmax threshold c) = - 1 \<and>
         index_mean_old (getOldIndices ba bank rmin rmax threshold c) = - 1 \<and>
         index_max_old (getOldIndices ba bank rmin rmax threshold c) = - 1"
proof -
  have "getOldIndices_level ba bank rmin rmax threshold c = Return not_found"
    using assms by (simp add: getOldIndices_level_def Let_def)
  moreover from this have "getOldIndices ba bank rmin rmax threshold c = not_found"
    by (rule getOldIndices_Return)
  ultimately show ?thesis by (simp add: not_found_def)
qed


lemmas ex_tracker_simps =
  getOldIndices.simps getOldIndices_level_def expand_object_def search_lower.simps
  search_higher.simps no_valid_object_def first_call_def track_object_def
  tracking_range_min_def tracking_range_max_def ex_argument_def ex_object_def Let_def
  level_rejected_def float_ops

definition ex_second_call :: tracker_call where
  "ex_second_call =
     \<lparr>object_width_in_points = 2, current_level = 0, levels_searched = 2, index_mean = 0,
      consecutive_failures_to_find_object = 0,
      outputs = \<lparr>index_min_old = 0, index_mean_old = 0, index_max_old = 1,
                 range_sum_old = Fin 4, range_at_min_index_old = Fin 2,
                 range_at_max_index_old = Fin 2\<rparr>\<rparr>"

theorem single_miss_aborts_witness:
  "reaches (ex_argument\<lparr>object_threshold_min_nr_points := 2\<rparr>)
     [[Fin 2, Fin 9], [Fin 2, Fin 2], [Fin 2, Fin 2]] (Fin 1) (Fin 2) 0
     (first_call (ex_argument\<lparr>object_threshold_min_nr_points := 2\<rparr>) 2 ex_object)
     ex_second_call \<and>
   consecutive_failures_to_find_object
     (first_call (ex_argument\<lparr>object_threshold_min_nr_points := 2\<rparr>) 2 ex_object) = 0 \<and>
   levels_searched ex_second_call \<noteq>
     word_of_int (nr_scans_in_bank (ex_argument\<lparr>object_threshold_min_nr_points := 2\<rparr>)) \<and>
   level_rejected (ex_argument\<lparr>object_threshold_min_nr_points := 2\<rparr>)
     [[Fin 2, Fin 9], [Fin 2, Fin 2], [Fin 2, Fin 2]] (Fin 1) (Fin 2) ex_second_call \<and>
   track_object (ex_argument\<lparr>object_threshold_min_nr_points := 2\<rparr>)
     [[Fin 2, Fin 9], [Fin 2, Fin 2], [Fin 2, Fin 2]] 2 ex_object = not_found \<and>
   index_mean_old
     (track_object (ex_argument\<lparr>object_threshold_min_nr_points := 2\<rparr>)
        [[Fin 2, Fin 9], [Fin 2, Fin 2], [Fin 2, Fin 2]] 2 ex_object) = - 1"
proof -
  let ?ba = "ex_argument\<lparr>object_threshold_min_nr_points := 2\<rparr>"
  let ?bank = "[[Fin 2, Fin 9], [Fin 2, Fin 2], [Fin 2, Fin 2]]"
  have step: "getOldIndices_level ?ba ?bank (Fin 1) (Fin 2) 0 (first_call ?ba 2 ex_object)
                = Recurse ex_second_call"
    by (simp add: ex_tracker_simps ex_second_call_def)
  have r: "reaches ?ba ?bank (Fin 1) (Fin 2) 0 (first_call ?ba 2 ex_object) ex_second_call"
    by (rule reaches_next [OF reaches_self step])
  have z: "consecutive_failures_to_find_object (first_call ?ba 2 ex_object) = 0"
    by (simp add: first_call_def Let_def)
  have l: "levels_searched ex_second_call \<noteq> word_of_int (nr_scans_in_bank ?ba)"
    by (simp add: ex_second_call_def ex_argument_def)
  have j: "level_rejected ?ba ?bank (Fin 1) (Fin 2) ex_second_call"
    by (simp add: ex_tracker_simps ex_second_call_def)
  have b: "tracking_range_min ?ba = Fin 1" "tracking_range_max ?ba = Fin 2"
    by (simp_all add: ex_argument_def tracking_range_min_def tracking_range_max_def float_ops)
  show ?thesis
    using r z l j single_miss_aborts [OF r z l j]
    by (simp add: track_object_def b not_found_def)
qed

theorem out_of_range_returns_at_once_witness:
  "levels_searched (first_call ex_argument 2 ex_object) \<noteq>
     word_of_int (nr_scans_in_bank ex_argument) \<and>
   fl_lt (Fin 2)
     ([[Fin 2, Fin 2], [Fin 9, Fin 2], [Fin 2, Fin 2]]
        ! nat (current_level (first_call ex_argument 2 ex_object))
        ! nat (index_mean (first_call ex_argument 2 ex_object))) \<and>
   getOldIndices ex_argument [[Fin 2, Fin 2], [Fin 9, Fin 2], [Fin 2, Fin 2]] (Fin 1) (Fin 2) 7
     (first_call ex_argument 2 ex_object) = not_found \<and>
   index_mean_old
     (getOldIndices ex_argument [[Fin 2, Fin 2], [Fin 9, Fin 2], [Fin 2, Fin 2]] (Fin 1) (Fin 2) 7
        (first_call ex_argument 2 ex_object)) = - 1"
proof -
  let ?bank = "[[Fin 2, Fin 2], [Fin 9, Fin 2], [Fin 2, Fin 2]]"
  have l: "levels_searched (first_call ex_argument 2 ex_object) \<noteq>
             word_of_int (nr_scans_in_bank ex_argument)"
    by (simp add: first_call_def Let_def ex_argument_def)
  have o: "fl_lt (?bank ! nat (current_level (first_call ex_argument 2 ex_object))
                    ! nat (index_mean (first_call ex_argument 2 ex_object))) (Fin 1) \<or>
           fl_lt (Fin 2)
             (?bank ! nat (current_level (first_call ex_argument 2 ex_object))
                    ! nat (index_mean (first_call ex_argument 2 ex_object)))"
    by (simp add: first_call_def Let_def ex_argument_def ex_object_def)
  have o': "fl_lt (Fin 2)
             (?bank ! nat (current_level (first_call ex_argument 2 ex_object))
                    ! nat (index_mean (first_call ex_argument 2 ex_object)))"
    by (simp add: first_call_def Let_def ex_argument_def ex_object_def)
  show ?thesis
    using l o' out_of_range_returns_at_once [OF l o, of 7]
    by (simp add: not_found_def)
qed

definition ex_object_far :: "int \<times> object_scan" where
  "ex_object_far =
     (0, \<lparr>nr_object_points = 2, object_range_sum = Fin 6,
          object_range_min = Fin 3, object_range_min_index = 0,
          object_range_max = Fin 3, object_range_max_index = 0,
          prev_range = Fin 3\<rparr>)"

definition ex_last_call :: tracker_call where
  "ex_last_call =
     \<lparr>object_width_in_points = 2, current_level = 2, levels_searched = 3, index_mean = 0,
      consecutive_failures_to_find_object = 0,
      outputs = \<lparr>index_min_old = 0, index_mean_old = 0, index_max_old = 1,
                 range_sum_old = Fin 4, range_at_min_index_old = Fin 2,
                 range_at_max_index_old = Fin 2\<rparr>\<rparr>"

definition ex_nan_call :: tracker_call where
  "ex_nan_call =
     \<lparr>object_width_in_points = 1, current_level = 0, levels_searched = 2, index_mean = 0,
      consecutive_failures_to_find_object = 0,
      outputs = \<lparr>index_min_old = 0, index_mean_old = 0, index_max_old = 0,
                 range_sum_old = NaN, range_at_min_index_old = NaN,
                 range_at_max_index_old = NaN\<rparr>\<rparr>"

text \<open>
  Claim C9 as stated fails in two ways. First, for the call that reaches the base case: the
  newest slot holds the ranges 3 and 3, which the search for objects accepts, and the two
  older slots hold 2 and 2. The walk ends in the call with
  \<open>levels_searched = nr_scans_in_bank\<close>, whose slot is the newest one again: the range at
  its \<open>index_mean\<close> is above \<open>rmax = 2\<close>, and the call returns with the outputs as they are,
  \<open>index_mean_old = 0\<close>. Second, for a range that is not a number: it is not within
  \<open>[1, 2]\<close>, yet the first call, which has not reached the base case, goes on to the
  recursive call, and the walk ends with \<open>index_mean_old = 0\<close>.
\<close>

theorem out_of_range_not_returned:
  "find_objects ex_argument [Fin 3, Fin 3] 0 = [ex_object_far] \<and>
   reaches ex_argument [[Fin 2, Fin 2], [Fin 2, Fin 2], [Fin 3, Fin 3]] (Fin 1) (Fin 2) 0
     (first_call ex_argument 2 ex_object_far) ex_last_call \<and>
   fl_lt (Fin 2)
     ([[Fin 2, Fin 2], [Fin 2, Fin 2], [Fin 3, Fin 3]]
        ! nat (current_level ex_last_call) ! nat (index_mean ex_last_call)) \<and>
   getOldIndices ex_argument [[Fin 2, Fin 2], [Fin 2, Fin 2], [Fin 3, Fin 3]] (Fin 1) (Fin 2) 0
     ex_last_call = outputs ex_last_call \<and>
   index_mean_old
     (getOldIndices ex_argument [[Fin 2, Fin 2], [Fin 2, Fin 2], [Fin 3, Fin 3]] (Fin 1) (Fin 2) 0
        ex_last_call) = 0 \<and>
   levels_searched (first_call ex_argument 2 ex_object) \<noteq>
     word_of_int (nr_scans_in_bank ex_argument) \<and>
   [[Fin 2, Fin 2], [NaN, NaN], [Fin 2, Fin 2]]
     ! nat (current_level (first_call ex_argument 2 ex_object))
     ! nat (index_mean (first_call ex_argument 2 ex_object)) = NaN \<and>
   \<not> fl_le (Fin 1) NaN \<and> \<not> fl_le NaN (Fin 2) \<and>
   getOldIndices_level ex_argument [[Fin 2, Fin 2], [NaN, NaN], [Fin 2, Fin 2]] (Fin 1) (Fin 2) 0
     (first_call ex_argument 2 ex_object) = Recurse ex_nan_call \<and>
   index_mean_old
     (getOldIndices ex_argument [[Fin 2, Fin 2], [NaN, NaN], [Fin 2, Fin 2]] (Fin 1) (Fin 2) 0
        (first_call ex_argument 2 ex_object)) = 0"
proof -
  let ?bank = "[[Fin 2, Fin 2], [Fin 2, Fin 2], [Fin 3, Fin 3]]"
  let ?nan = "[[Fin 2, Fin 2], [NaN, NaN], [Fin 2, Fin 2]]"
  have f: "find_objects ex_argument [Fin 3, Fin 3] 0 = [ex_object_far]"
    by (simp add: find_objects.simps count_object_points.simps ex_argument_def
        ex_object_far_def Let_def float_ops)
  have s1: "getOldIndices_level ex_argument ?bank (Fin 1) (Fin 2) 0
              (first_call ex_argument 2 ex_object_far) = Recurse ex_second_call"
    by (simp add: ex_tracker_simps ex_second_call_def ex_object_far_def)
  have s2: "getOldIndices_level ex_argument ?bank (Fin 1) (Fin 2) 0 ex_second_call
              = Recurse ex_last_call"
    by (simp add: ex_tracker_simps ex_second_call_def ex_last_call_def)
  have r: "reaches ex_argument ?bank (Fin 1) (Fin 2) 0
             (first_call ex_argument 2 ex_object_far) ex_last_call"
    by (rule reaches_next [OF reaches_next [OF reaches_self s1] s2])
  have g: "getOldIndices ex_argument ?bank (Fin 1) (Fin 2) 0 ex_last_call = outputs ex_last_call"
    by (simp add: ex_tracker_simps ex_last_call_def)
  have l: "levels_searched (first_call ex_argument 2 ex_object) \<noteq>
             word_of_int (nr_scans_in_bank ex_argument)"
    by (simp add: first_call_def Let_def ex_argument_def)
  have v: "?nan ! nat (current_level (first_call ex_argument 2 ex_object))
             ! nat (index_mean (first_call ex_argument 2 ex_object)) = NaN"
    by (simp add: first_call_def Let_def ex_argument_def ex_object_def)
  have n1: "getOldIndices_level ex_argument ?nan (Fin 1) (Fin 2) 0
              (first_call ex_argument 2 ex_object) = Recurse ex_nan_call"
    by (simp add: ex_tracker_simps ex_nan_call_def)
  have n2: "index_mean_old
              (getOldIndices ex_argument ?nan (Fin 1) (Fin 2) 0
                 (first_call ex_argument 2 ex_object)) = 0"
    by (simp add: ex_tracker_simps)
  show ?thesis
    using f r g l v n1 n2 by (simp add: ex_last_call_def)
qed

definition ex_argument_wide :: BankArgument where
  "ex_argument_wide =
     ex_argument\<lparr>nr_scans_in_bank := 2, points_per_scan := 3,
                 object_threshold_max_distance := Fin 10\<rparr>"

definition ex_object_wide :: "int \<times> object_scan" where
  "ex_object_wide =
     (0, \<lparr>nr_object_points = 3, object_range_sum = Fin 6,
          object_range_min = Fin 2, object_range_min_index = 0,
          object_range_max = Fin 2, object_range_max_index = 0,
          prev_range = Fin 2\<rparr>)"

text \<open>
  Claim C3 as stated fails in two ways, with miss tolerance 0 in both. First, a mean range
  that is not a number: the slot searched first holds a range that is not a number at
  \<open>index_mean\<close>, the object found there has the range sum and so the mean range
  not-a-number, and the difference to the mean range 2 of the newest slot is not within
  \<open>object_threshold_bank_tracking_max_delta_distance = 1\<close>; the test of the source, which
  asks whether the threshold is below the difference, accepts the object, and the walk ends
  with \<open>index_mean_old = 0\<close>. Second, rounding: with a depth of 2 and three points per scan,
  the newest slot holds 2, 2, 2 and the older slot 3, 3 and the float next above 3. The
  mean ranges differ by more than the threshold 1, but the \<open>float\<close> sum of the older slot
  is 9, the difference that the source computes is 1, and the walk ends with
  \<open>index_mean_old = 1\<close>.
\<close>

theorem mean_range_violation_tracked:
  "current_level (first_call ex_argument 2 ex_object) = 1 \<and>
   index_mean (first_call ex_argument 2 ex_object) = 0 \<and>
   expand_object ex_argument (Fin 1) (Fin 2) [NaN, Fin 2] 0 = (0, 0, NaN, NaN, NaN) \<and>
   mean_range_delta 1 2 NaN (Fin 4) = NaN \<and>
   \<not> fl_le NaN (object_threshold_bank_tracking_max_delta_distance ex_argument) \<and>
   track_object ex_argument [[Fin 2, Fin 2], [NaN, Fin 2], [Fin 2, Fin 2]] 2 ex_object =
     \<lparr>index_min_old = 0, index_mean_old = 0, index_max_old = 1,
      range_sum_old = Fin 4, range_at_min_index_old = Fin 2, range_at_max_index_old = Fin 2\<rparr> \<and>
   find_objects ex_argument_wide [Fin 2, Fin 2, Fin 2] 0 = [ex_object_wide] \<and>
   expand_object ex_argument_wide (Fin 1) (Fin 10)
     [Fin 3, Fin 3, Fin (12582913 / 4194304)] 1 =
     (0, 2, Fin 9, Fin 3, Fin (12582913 / 4194304)) \<and>
   object_threshold_bank_tracking_max_delta_distance ex_argument_wide = Fin 1 \<and>
   (1 :: real) < \<bar>(3 + 3 + 12582913 / 4194304) / 3 - (2 + 2 + 2) / 3\<bar> \<and>
   mean_range_delta 3 3 (Fin 9) (Fin 6) = Fin 1 \<and>
   track_object ex_argument_wide
     [[Fin 3, Fin 3, Fin (12582913 / 4194304)], [Fin 2, Fin 2, Fin 2]] 1 ex_object_wide =
     \<lparr>index_min_old = 0, index_mean_old = 1, index_max_old = 2,
      range_sum_old = Fin 9, range_at_min_index_old = Fin 3,
      range_at_max_index_old = Fin (12582913 / 4194304)\<rparr>"
proof -
  have a1: "current_level (first_call ex_argument 2 ex_object) = 1"
    "index_mean (first_call ex_argument 2 ex_object) = 0"
    by (simp_all add: first_call_def Let_def ex_argument_def ex_object_def)
  have a2: "expand_object ex_argument (Fin 1) (Fin 2) [NaN, Fin 2] 0 = (0, 0, NaN, NaN, NaN)"
    by (simp add: ex_tracker_simps)
  have a3: "mean_range_delta 1 2 NaN (Fin 4) = NaN"
    by (simp add: float_ops)
  have a4: "track_object ex_argument [[Fin 2, Fin 2], [NaN, Fin 2], [Fin 2, Fin 2]] 2 ex_object =
     \<lparr>index_min_old = 0, index_mean_old = 0, index_max_old = 1,
      range_sum_old = Fin 4, range_at_min_index_old = Fin 2, range_at_max_index_old = Fin 2\<rparr>"
    by (simp add: ex_tracker_simps)
  have b1: "find_objects ex_argument_wide [Fin 2, Fin 2, Fin 2] 0 = [ex_object_wide]"
    by (simp add: find_objects.simps count_object_points.simps ex_argument_wide_def
        ex_argument_def ex_object_wide_def Let_def float_ops)
  have b2: "expand_object ex_argument_wide (Fin 1) (Fin 10)
              [Fin 3, Fin 3, Fin (12582913 / 4194304)] 1 =
            (0, 2, Fin 9, Fin 3, Fin (12582913 / 4194304))"
    by (simp add: ex_tracker_simps ex_argument_wide_def round_to_float_examples)
  have b3: "object_threshold_bank_tracking_max_delta_distance ex_argument_wide = Fin 1"
    by (simp add: ex_argument_wide_def ex_argument_def)
  have b4: "mean_range_delta 3 3 (Fin 9) (Fin 6) = Fin 1"
    by (simp add: float_ops)
  have b5: "track_object ex_argument_wide
     [[Fin 3, Fin 3, Fin (12582913 / 4194304)], [Fin 2, Fin 2, Fin 2]] 1 ex_object_wide =
     \<lparr>index_min_old = 0, index_mean_old = 1, index_max_old = 2,
      range_sum_old = Fin 9, range_at_min_index_old = Fin 3,
      range_at_max_index_old = Fin (12582913 / 4194304)\<rparr>"
    by (simp add: ex_tracker_simps ex_argument_wide_def ex_object_wide_def
        round_to_float_examples)
  show ?thesis
    using a1 a2 a3 a4 b1 b2 b3 b4 b5 by (simp add: ex_argument_def)
qed

subsection \<open>An object that is present in every slot\<close>

text \<open>
  The object \<open>lo .. hi\<close> is present in a slot, for the tracker: its ranges are within the
  bounds, neighbouring ranges differ by at most the edge threshold, the difference being
  the \<open>float\<close> that the source computes, and the object cannot be extended at either end.
\<close>

definition segment_present :: "BankArgument \<Rightarrow> fl \<Rightarrow> fl \<Rightarrow> fl list \<Rightarrow> int \<Rightarrow> int \<Rightarrow> bool" where
  "segment_present ba rmin rmax slot lo hi =
     (0 \<le> lo \<and> lo \<le> hi \<and> hi < points_per_scan ba \<and>
      (\<forall>i \<in> {lo..hi}. fl_le rmin (slot ! nat i) \<and> fl_le (slot ! nat i) rmax) \<and>
      (\<forall>i \<in> {lo..<hi}.
         fl_le (fl_abs (fl_subf (slot ! nat i) (slot ! nat (i + 1))))
           (object_threshold_edge_max_delta_range ba)) \<and>
      (lo = 0 \<or>
       \<not> (fl_le rmin (slot ! nat (lo - 1)) \<and> fl_le (slot ! nat (lo - 1)) rmax \<and>
          fl_le (fl_abs (fl_subf (slot ! nat (lo - 1)) (slot ! nat lo)))
            (object_threshold_edge_max_delta_range ba))) \<and>
      (hi = points_per_scan ba - 1 \<or>
       \<not> (fl_le rmin (slot ! nat (hi + 1)) \<and> fl_le (slot ! nat (hi + 1)) rmax \<and>
          fl_le (fl_abs (fl_subf (slot ! nat (hi + 1)) (slot ! nat hi)))
            (object_threshold_edge_max_delta_range ba))))"

text \<open>
  The \<open>float\<close> sum of the ranges of the object in the order in which the tracker adds
  them: from the middle down to \<open>lo\<close>, then from the middle up to \<open>hi\<close>; and the outputs
  of the tracker for the object.
\<close>

definition segment_range_sum :: "fl list \<Rightarrow> int \<Rightarrow> int \<Rightarrow> fl" where
  "segment_range_sum slot lo hi =
     foldl fl_addf (slot ! nat ((hi + lo) div 2))
       (map (\<lambda>i. slot ! nat i) (rev [lo..(hi + lo) div 2 - 1] @ [(hi + lo) div 2 + 1..hi]))"

definition segment_indices :: "fl list \<Rightarrow> int \<Rightarrow> int \<Rightarrow> old_indices" where
  "segment_indices slot lo hi =
     \<lparr>index_min_old = lo, index_mean_old = (hi + lo) div 2, index_max_old = hi,
      range_sum_old = segment_range_sum slot lo hi,
      range_at_min_index_old = slot ! nat lo, range_at_max_index_old = slot ! nat hi\<rparr>"

lemma fl_le_not_lt: "fl_le x y \<Longrightarrow> \<not> fl_lt y x"
  by (cases x; cases y) simp_all

lemma search_lower_present:
  assumes "segment_present ba rmin rmax slot lo hi"
    and "lo - 1 \<le> i" and "i < hi"
  shows "search_lower ba rmin rmax slot i (i + 1, slot ! nat (i + 1), acc) =
           (lo, slot ! nat lo, foldl fl_addf acc (map (\<lambda>j. slot ! nat j) (rev [lo..i])))"
  using assms(2,3)
proof (induction "nat (i - lo + 1)" arbitrary: i acc)
  case 0
  then have i: "i = lo - 1" by simp
  show ?case
  proof (cases "lo = 0")
    case True
    with i show ?thesis by (subst search_lower.simps) simp
  next
    case False
    with assms(1) have
      "\<not> (fl_le rmin (slot ! nat (lo - 1)) \<and> fl_le (slot ! nat (lo - 1)) rmax \<and>
          fl_le (fl_abs (fl_subf (slot ! nat (lo - 1)) (slot ! nat lo)))
            (object_threshold_edge_max_delta_range ba))"
      by (simp add: segment_present_def)
    with i show ?thesis by (subst search_lower.simps) (auto simp: Let_def)
  qed
next
  case (Suc n)
  then have i: "lo \<le> i" "i < hi" "0 \<le> i" using assms(1) by (auto simp: segment_present_def)
  from assms(1) i have ok:
    "fl_le rmin (slot ! nat i)" "fl_le (slot ! nat i) rmax"
    "fl_le (fl_abs (fl_subf (slot ! nat i) (slot ! nat (i + 1))))
       (object_threshold_edge_max_delta_range ba)"
    by (simp_all add: segment_present_def)
  have "n = nat (i - 1 - lo + 1)" using Suc.hyps(2) by simp
  from Suc.hyps(1) [OF this, of "fl_addf acc (slot ! nat i)"] i
  have ih: "search_lower ba rmin rmax slot (i - 1) (i, slot ! nat i, fl_addf acc (slot ! nat i)) =
              (lo, slot ! nat lo,
               foldl fl_addf (fl_addf acc (slot ! nat i)) (map (\<lambda>j. slot ! nat j) (rev [lo..i - 1])))"
    by simp
  have "search_lower ba rmin rmax slot i (i + 1, slot ! nat (i + 1), acc) =
          search_lower ba rmin rmax slot (i - 1) (i, slot ! nat i, fl_addf acc (slot ! nat i))"
    using i ok by (subst search_lower.simps) (simp add: Let_def)
  also note ih
  also have "foldl fl_addf (fl_addf acc (slot ! nat i)) (map (\<lambda>j. slot ! nat j) (rev [lo..i - 1])) =
             foldl fl_addf acc (map (\<lambda>j. slot ! nat j) (rev [lo..i]))"
    using i(1) by (simp add: upto_rec2 [of lo i])
  finally show ?case .
qed

lemma search_higher_present:
  assumes "segment_present ba rmin rmax slot lo hi"
    and "lo < i" and "i \<le> hi + 1"
  shows "search_higher ba rmin rmax slot i (i - 1, slot ! nat (i - 1), acc) =
           (hi, slot ! nat hi, foldl fl_addf acc (map (\<lambda>j. slot ! nat j) [i..hi]))"
  using assms(2,3)
proof (induction "nat (hi + 1 - i)" arbitrary: i acc)
  case 0
  then have i: "i = hi + 1" by simp
  show ?case
  proof (cases "hi = points_per_scan ba - 1")
    case True
    with i show ?thesis by (subst search_higher.simps) simp
  next
    case False
    with assms(1) have
      "\<not> (fl_le rmin (slot ! nat (hi + 1)) \<and> fl_le (slot ! nat (hi + 1)) rmax \<and>
          fl_le (fl_abs (fl_subf (slot ! nat (hi + 1)) (slot ! nat hi)))
            (object_threshold_edge_max_delta_range ba))"
      by (simp add: segment_present_def)
    with i show ?thesis by (subst search_higher.simps) (auto simp: Let_def)
  qed
next
  case (Suc n)
  then have i: "lo < i" "i \<le> hi" "i < points_per_scan ba" "0 \<le> i - 1"
    using assms(1) by (auto simp: segment_present_def)
  from assms(1) have chain: "\<forall>j \<in> {lo..<hi}.
         fl_le (fl_abs (fl_subf (slot ! nat j) (slot ! nat (j + 1))))
           (object_threshold_edge_max_delta_range ba)"
    by (simp add: segment_present_def)
  have "i - 1 \<in> {lo..<hi}" using i by simp
  with chain have "fl_le (fl_abs (fl_subf (slot ! nat (i - 1)) (slot ! nat (i - 1 + 1))))
       (object_threshold_edge_max_delta_range ba)"
    by (rule bspec)
  then have near: "fl_le (fl_abs (fl_subf (slot ! nat i) (slot ! nat (i - 1))))
       (object_threshold_edge_max_delta_range ba)"
    by (simp add: fl_abs_subf_commute [of "slot ! nat i"])
  from assms(1) i have ok: "fl_le rmin (slot ! nat i)" "fl_le (slot ! nat i) rmax"
    by (simp_all add: segment_present_def)
  have "n = nat (hi + 1 - (i + 1))" using Suc.hyps(2) by simp
  from Suc.hyps(1) [OF this, of "fl_addf acc (slot ! nat i)"] i
  have ih: "search_higher ba rmin rmax slot (i + 1) (i, slot ! nat i, fl_addf acc (slot ! nat i)) =
              (hi, slot ! nat hi,
               foldl fl_addf (fl_addf acc (slot ! nat i)) (map (\<lambda>j. slot ! nat j) [i + 1..hi]))"
    by simp
  have "search_higher ba rmin rmax slot i (i - 1, slot ! nat (i - 1), acc) =
          search_higher ba rmin rmax slot (i + 1) (i, slot ! nat i, fl_addf acc (slot ! nat i))"
    using i ok near by (subst search_higher.simps) (simp add: Let_def)
  also note ih
  also have "foldl fl_addf (fl_addf acc (slot ! nat i)) (map (\<lambda>j. slot ! nat j) [i + 1..hi]) =
             foldl fl_addf acc (map (\<lambda>j. slot ! nat j) [i..hi])"
    using i(2) by (simp add: upto_rec1 [of i hi])
  finally show ?case .
qed

lemma expand_object_present:
  assumes "segment_present ba rmin rmax slot lo hi"
  shows "expand_object ba rmin rmax slot ((hi + lo) div 2) =
           (lo, hi, segment_range_sum slot lo hi, slot ! nat lo, slot ! nat hi)"
proof -
  define m where "m = (hi + lo) div 2"
  from assms have "lo \<le> hi" by (simp add: segment_present_def)
  then have m: "lo \<le> m" "m \<le> hi" by (simp_all add: m_def)
  have l: "search_lower ba rmin rmax slot (m - 1) (m, slot ! nat m, slot ! nat m) =
             (lo, slot ! nat lo,
              foldl fl_addf (slot ! nat m) (map (\<lambda>j. slot ! nat j) (rev [lo..m - 1])))"
    using search_lower_present [OF assms, of "m - 1" "slot ! nat m"] m by simp
  have h: "search_higher ba rmin rmax slot (m + 1) (m, slot ! nat m, acc) =
             (hi, slot ! nat hi, foldl fl_addf acc (map (\<lambda>j. slot ! nat j) [m + 1..hi]))" for acc
    using search_higher_present [OF assms, of "m + 1" acc] m by simp
  show ?thesis
    unfolding m_def [symmetric]
    by (simp add: expand_object_def l h segment_range_sum_def m_def [symmetric])
qed


text \<open>
  The slot that was written \<open>k\<close> writes before the newest one, and the call of the tracker
  that searches it when the object has been found in every newer slot.
\<close>

definition older_slot :: "BankArgument \<Rightarrow> fl list list \<Rightarrow> int \<Rightarrow> int \<Rightarrow> fl list" where
  "older_slot ba bank newest k = bank ! nat ((newest - k) mod nr_scans_in_bank ba)"

definition walk_call :: "BankArgument \<Rightarrow> int \<Rightarrow> int \<Rightarrow> int \<Rightarrow> int \<Rightarrow> old_indices \<Rightarrow> tracker_call" where
  "walk_call ba newest lo hi k out =
     \<lparr>object_width_in_points = hi - lo + 1,
      current_level = (newest - k) mod nr_scans_in_bank ba,
      levels_searched = word_of_int k,
      index_mean = (hi + lo) div 2,
      consecutive_failures_to_find_object = 0,
      outputs = out\<rparr>"

lemma level_count_neq:
  assumes "0 \<le> k" "k < n" "n < 2 ^ 32"
  shows "(word_of_int k :: 32 word) \<noteq> word_of_int n"
proof -
  have "take_bit 32 k = k" "take_bit 32 n = n"
    using assms by (simp_all add: take_bit_int_eq_self)
  with assms(2) show ?thesis by (simp add: word_of_int_eq_iff)
qed

lemma wrap_around_level:
  fixes a n :: int
  assumes "0 < n"
  shows "(if a mod n - 1 < 0 then n - 1 else a mod n - 1) = (a - 1) mod n"
proof -
  define r where "r = a mod n"
  have r: "0 \<le> r" "r < n" using assms by (simp_all add: r_def)
  have "(a - 1) mod n = (r - 1) mod n" unfolding r_def by (simp add: mod_diff_left_eq)
  also have "\<dots> = (if r - 1 < 0 then n - 1 else r - 1)"
  proof (cases "r = 0")
    case True
    have "(- 1) mod n = n - 1" using assms by (simp add: zmod_minus1)
    with True show ?thesis by simp
  next
    case False
    with r have "0 \<le> r - 1" "r - 1 < n" by simp_all
    then have "(r - 1) mod n = r - 1" by (rule mod_pos_pos_trivial)
    with False r show ?thesis by simp
  qed
  finally show ?thesis by (simp add: r_def)
qed

lemma walk_level:
  assumes n: "0 < nr_scans_in_bank ba" "nr_scans_in_bank ba < 2 ^ 32"
    and delta: "0 \<le> object_threshold_max_delta_width_in_points ba"
    and k: "0 \<le> k" "k < nr_scans_in_bank ba"
    and present: "segment_present ba rmin rmax (older_slot ba bank newest k) lo hi"
    and wide: "object_threshold_min_nr_points ba \<le> hi - lo + 1"
    and close: "fl_le (fl_abs (fl_subf
                   (fl_div_count (segment_range_sum (older_slot ba bank newest k) lo hi)
                      (hi - lo + 1))
                   (fl_div_count (range_sum_old out) (hi - lo + 1))))
                 (object_threshold_bank_tracking_max_delta_distance ba)"
  shows "getOldIndices_level ba bank rmin rmax 0 (walk_call ba newest lo hi k out) =
           Recurse (walk_call ba newest lo hi (k + 1)
                      (segment_indices (older_slot ba bank newest k) lo hi))"
proof -
  let ?slot = "older_slot ba bank newest k"
  let ?m = "(hi + lo) div 2"
  have ls: "(word_of_int k :: 32 word) \<noteq> word_of_int (nr_scans_in_bank ba)"
    using k n(2) by (rule level_count_neq)
  from present have lohi: "0 \<le> lo" "lo \<le> hi" by (simp_all add: segment_present_def)
  then have "lo \<le> ?m" "?m \<le> hi" by linarith+
  then have m: "?m \<in> {lo..hi}" by simp
  from present have "\<forall>i \<in> {lo..hi}. fl_le rmin (?slot ! nat i) \<and> fl_le (?slot ! nat i) rmax"
    by (simp add: segment_present_def)
  with m have "fl_le rmin (?slot ! nat ?m) \<and> fl_le (?slot ! nat ?m) rmax" by (rule bspec [rotated])
  then have inside: "\<not> fl_lt (?slot ! nat ?m) rmin" "\<not> fl_lt rmax (?slot ! nat ?m)"
    by (simp_all add: fl_le_not_lt)
  have valid: "\<not> no_valid_object ba (hi - lo + 1) (hi - lo + 1)
                    (segment_range_sum ?slot lo hi) (range_sum_old out)"
    using wide delta close by (simp add: no_valid_object_def mean_range_delta_def fl_le_not_lt)
  have level: "(if (newest - k) mod nr_scans_in_bank ba - 1 < 0 then nr_scans_in_bank ba - 1
                else (newest - k) mod nr_scans_in_bank ba - 1) =
               (newest - (k + 1)) mod nr_scans_in_bank ba"
    using wrap_around_level [OF n(1), of "newest - k"] by (simp add: algebra_simps)
  have slot: "bank ! nat ((newest - k) mod nr_scans_in_bank ba) = ?slot"
    by (simp add: older_slot_def)
  have count: "(word_of_int (k + 1) :: 32 word) = word_of_int k + 1" by simp
  have "getOldIndices_level ba bank rmin rmax 0 (walk_call ba newest lo hi k out) =
          Recurse
            \<lparr>object_width_in_points = hi - lo + 1,
             current_level =
               (if (newest - k) mod nr_scans_in_bank ba - 1 < 0 then nr_scans_in_bank ba - 1
                else (newest - k) mod nr_scans_in_bank ba - 1),
             levels_searched = word_of_int k + 1,
             index_mean = (hi + lo) div 2,
             consecutive_failures_to_find_object = 0,
             outputs = segment_indices ?slot lo hi\<rparr>"
    unfolding getOldIndices_level_def walk_call_def
    by (simp add: ls slot inside expand_object_present [OF present] valid
        segment_indices_def Let_def del: word_of_int_eq_iff)
  then show ?thesis by (simp only: level count walk_call_def)
qed


lemma walk_base_case:
  "getOldIndices ba bank rmin rmax threshold
     (walk_call ba newest lo hi (nr_scans_in_bank ba) out) = out"
  by (simp add: getOldIndices.simps getOldIndices_level_def walk_call_def)

text \<open>
  The object \<open>obj\<close> of the newest slot spans \<open>lo .. hi\<close> and is wide enough to be tracked;
  the same span is an object of every older slot, within the bounds that the tracker
  receives; and the mean range of the object in each older slot is within
  \<open>object_threshold_bank_tracking_max_delta_distance\<close> of its mean range in the slot searched
  before, which for the first older slot is the newest slot. The mean ranges and their
  difference are the \<open>float\<close> values that the source computes from the range sums.
\<close>

definition newer_range_sum ::
  "BankArgument \<Rightarrow> fl list list \<Rightarrow> int \<Rightarrow> int \<times> object_scan \<Rightarrow> int \<Rightarrow> int \<Rightarrow> int \<Rightarrow> fl" where
  "newer_range_sum ba bank newest obj lo hi k =
     (if k = 1 then object_range_sum (snd obj)
      else segment_range_sum (older_slot ba bank newest (k - 1)) lo hi)"

definition same_object_in_every_slot ::
  "BankArgument \<Rightarrow> fl list list \<Rightarrow> int \<Rightarrow> int \<times> object_scan \<Rightarrow> int \<Rightarrow> int \<Rightarrow> bool" where
  "same_object_in_every_slot ba bank newest obj lo hi =
     (fst obj = lo \<and> nr_object_points (snd obj) = hi - lo + 1 \<and>
      object_threshold_min_nr_points ba \<le> hi - lo + 1 \<and>
      (\<forall>k \<in> {1..nr_scans_in_bank ba - 1}.
         segment_present ba (tracking_range_min ba) (tracking_range_max ba)
           (older_slot ba bank newest k) lo hi \<and>
         fl_le (fl_abs (fl_subf
                  (fl_div_count (segment_range_sum (older_slot ba bank newest k) lo hi)
                     (hi - lo + 1))
                  (fl_div_count (newer_range_sum ba bank newest obj lo hi k) (hi - lo + 1))))
           (object_threshold_bank_tracking_max_delta_distance ba)))"

lemma walk_to_oldest:
  assumes n: "0 < nr_scans_in_bank ba" "nr_scans_in_bank ba < 2 ^ 32"
    and delta: "0 \<le> object_threshold_max_delta_width_in_points ba"
    and same: "same_object_in_every_slot ba bank newest obj lo hi"
    and k: "1 \<le> k" "k \<le> nr_scans_in_bank ba - 1"
    and out: "range_sum_old out = newer_range_sum ba bank newest obj lo hi k"
  shows "getOldIndices ba bank (tracking_range_min ba) (tracking_range_max ba) 0
           (walk_call ba newest lo hi k out) =
         segment_indices (older_slot ba bank newest (nr_scans_in_bank ba - 1)) lo hi"
  using k out
proof (induction "nat (nr_scans_in_bank ba - 1 - k)" arbitrary: k out)
  case 0
  then have k: "k = nr_scans_in_bank ba - 1" by simp
  from same k n have
    present: "segment_present ba (tracking_range_min ba) (tracking_range_max ba)
                (older_slot ba bank newest k) lo hi"
    and close: "fl_le (fl_abs (fl_subf
                  (fl_div_count (segment_range_sum (older_slot ba bank newest k) lo hi)
                     (hi - lo + 1))
                  (fl_div_count (newer_range_sum ba bank newest obj lo hi k) (hi - lo + 1))))
           (object_threshold_bank_tracking_max_delta_distance ba)"
    and wide: "object_threshold_min_nr_points ba \<le> hi - lo + 1"
    using "0.prems"(1) by (simp_all add: same_object_in_every_slot_def)
  have "getOldIndices_level ba bank (tracking_range_min ba) (tracking_range_max ba) 0
          (walk_call ba newest lo hi k out) =
        Recurse (walk_call ba newest lo hi (k + 1)
                   (segment_indices (older_slot ba bank newest k) lo hi))"
    using n delta _ _ present wide
  proof (rule walk_level)
    show "0 \<le> k" using "0.prems"(1) by simp
    show "k < nr_scans_in_bank ba" using k by simp
    show "fl_le (fl_abs (fl_subf
                  (fl_div_count (segment_range_sum (older_slot ba bank newest k) lo hi)
                     (hi - lo + 1))
                  (fl_div_count (range_sum_old out) (hi - lo + 1))))
           (object_threshold_bank_tracking_max_delta_distance ba)"
      using close by (simp only: "0.prems"(3))
  qed
  then have "getOldIndices ba bank (tracking_range_min ba) (tracking_range_max ba) 0
               (walk_call ba newest lo hi k out) =
             getOldIndices ba bank (tracking_range_min ba) (tracking_range_max ba) 0
               (walk_call ba newest lo hi (k + 1)
                  (segment_indices (older_slot ba bank newest k) lo hi))"
    by (rule getOldIndices_Recurse)
  also have "k + 1 = nr_scans_in_bank ba" using k by simp
  finally show ?case by (simp only: walk_base_case k)
next
  case (Suc j)
  then have k: "1 \<le> k" "k < nr_scans_in_bank ba - 1" by simp_all
  then have "k \<in> {1..nr_scans_in_bank ba - 1}" by simp
  with same have
    present: "segment_present ba (tracking_range_min ba) (tracking_range_max ba)
                (older_slot ba bank newest k) lo hi"
    and close: "fl_le (fl_abs (fl_subf
                  (fl_div_count (segment_range_sum (older_slot ba bank newest k) lo hi)
                     (hi - lo + 1))
                  (fl_div_count (newer_range_sum ba bank newest obj lo hi k) (hi - lo + 1))))
           (object_threshold_bank_tracking_max_delta_distance ba)"
    and wide: "object_threshold_min_nr_points ba \<le> hi - lo + 1"
    by (simp_all add: same_object_in_every_slot_def)
  have "getOldIndices_level ba bank (tracking_range_min ba) (tracking_range_max ba) 0
          (walk_call ba newest lo hi k out) =
        Recurse (walk_call ba newest lo hi (k + 1)
                   (segment_indices (older_slot ba bank newest k) lo hi))"
    using n delta _ _ present wide
  proof (rule walk_level)
    show "0 \<le> k" using k by simp
    show "k < nr_scans_in_bank ba" using k by simp
    show "fl_le (fl_abs (fl_subf
                  (fl_div_count (segment_range_sum (older_slot ba bank newest k) lo hi)
                     (hi - lo + 1))
                  (fl_div_count (range_sum_old out) (hi - lo + 1))))
           (object_threshold_bank_tracking_max_delta_distance ba)"
      using close by (simp only: Suc.prems(3))
  qed
  then have "getOldIndices ba bank (tracking_range_min ba) (tracking_range_max ba) 0
               (walk_call ba newest lo hi k out) =
             getOldIndices ba bank (tracking_range_min ba) (tracking_range_max ba) 0
               (walk_call ba newest lo hi (k + 1)
                  (segment_indices (older_slot ba bank newest k) lo hi))"
    by (rule getOldIndices_Recurse)
  also have "\<dots> = segment_indices (older_slot ba bank newest (nr_scans_in_bank ba - 1)) lo hi"
  proof (rule Suc.hyps(1))
    show "j = nat (nr_scans_in_bank ba - 1 - (k + 1))" using Suc.hyps(2) by simp
    show "1 \<le> k + 1" using k by simp
    show "k + 1 \<le> nr_scans_in_bank ba - 1" using k by simp
    show "range_sum_old (segment_indices (older_slot ba bank newest k) lo hi) =
            newer_range_sum ba bank newest obj lo hi (k + 1)"
      using k by (simp add: segment_indices_def newer_range_sum_def)
  qed
  finally show ?case .
qed


lemma walk_reaches:
  assumes n: "0 < nr_scans_in_bank ba" "nr_scans_in_bank ba < 2 ^ 32"
    and delta: "0 \<le> object_threshold_max_delta_width_in_points ba"
    and same: "same_object_in_every_slot ba bank newest obj lo hi"
    and out0: "range_sum_old out0 = object_range_sum (snd obj)"
    and k: "1 \<le> k" "k \<le> nr_scans_in_bank ba - 1"
  shows "\<exists>out. range_sum_old out = newer_range_sum ba bank newest obj lo hi k \<and>
               reaches ba bank (tracking_range_min ba) (tracking_range_max ba) 0
                 (walk_call ba newest lo hi 1 out0) (walk_call ba newest lo hi k out)"
  using k
proof (induction "nat (k - 1)" arbitrary: k)
  case 0
  then have "k = 1" by simp
  with out0 show ?case
    by (intro exI [of _ out0]) (simp add: newer_range_sum_def reaches_self)
next
  case (Suc j)
  then have k: "2 \<le> k" "k \<le> nr_scans_in_bank ba - 1" by simp_all
  have "\<exists>out. range_sum_old out = newer_range_sum ba bank newest obj lo hi (k - 1) \<and>
               reaches ba bank (tracking_range_min ba) (tracking_range_max ba) 0
                 (walk_call ba newest lo hi 1 out0) (walk_call ba newest lo hi (k - 1) out)"
  proof (rule Suc.hyps(1))
    show "j = nat (k - 1 - 1)" using Suc.hyps(2) by simp
    show "1 \<le> k - 1" using k by simp
    show "k - 1 \<le> nr_scans_in_bank ba - 1" using k by simp
  qed
  then obtain out
    where out: "range_sum_old out = newer_range_sum ba bank newest obj lo hi (k - 1)"
      and r: "reaches ba bank (tracking_range_min ba) (tracking_range_max ba) 0
                (walk_call ba newest lo hi 1 out0) (walk_call ba newest lo hi (k - 1) out)"
    by blast
  from k have "k - 1 \<in> {1..nr_scans_in_bank ba - 1}" by simp
  with same have
    present: "segment_present ba (tracking_range_min ba) (tracking_range_max ba)
                (older_slot ba bank newest (k - 1)) lo hi"
    and close: "fl_le (fl_abs (fl_subf
                  (fl_div_count (segment_range_sum (older_slot ba bank newest (k - 1)) lo hi)
                     (hi - lo + 1))
                  (fl_div_count (newer_range_sum ba bank newest obj lo hi (k - 1))
                     (hi - lo + 1))))
           (object_threshold_bank_tracking_max_delta_distance ba)"
    and wide: "object_threshold_min_nr_points ba \<le> hi - lo + 1"
    by (simp_all add: same_object_in_every_slot_def)
  have "getOldIndices_level ba bank (tracking_range_min ba) (tracking_range_max ba) 0
          (walk_call ba newest lo hi (k - 1) out) =
        Recurse (walk_call ba newest lo hi (k - 1 + 1)
                   (segment_indices (older_slot ba bank newest (k - 1)) lo hi))"
    using n delta _ _ present wide
  proof (rule walk_level)
    show "0 \<le> k - 1" using k by simp
    show "k - 1 < nr_scans_in_bank ba" using k by simp
    show "fl_le (fl_abs (fl_subf
                  (fl_div_count (segment_range_sum (older_slot ba bank newest (k - 1)) lo hi)
                     (hi - lo + 1))
                  (fl_div_count (range_sum_old out) (hi - lo + 1))))
           (object_threshold_bank_tracking_max_delta_distance ba)"
      using close by (simp only: out)
  qed
  then have "getOldIndices_level ba bank (tracking_range_min ba) (tracking_range_max ba) 0
          (walk_call ba newest lo hi (k - 1) out) =
        Recurse (walk_call ba newest lo hi k
                   (segment_indices (older_slot ba bank newest (k - 1)) lo hi))"
    by simp
  with r have "reaches ba bank (tracking_range_min ba) (tracking_range_max ba) 0
                (walk_call ba newest lo hi 1 out0)
                (walk_call ba newest lo hi k
                   (segment_indices (older_slot ba bank newest (k - 1)) lo hi))"
    by (rule reaches_next)
  moreover have "range_sum_old (segment_indices (older_slot ba bank newest (k - 1)) lo hi) =
                 newer_range_sum ba bank newest obj lo hi k"
    using k by (simp add: segment_indices_def newer_range_sum_def)
  ultimately show ?case by blast
qed

lemma first_call_walk:
  assumes "0 \<le> newest" "newest < nr_scans_in_bank ba"
    and "fst obj = lo" "nr_object_points (snd obj) = hi - lo + 1"
  shows "first_call ba newest obj =
           walk_call ba newest lo hi 1
             \<lparr>index_min_old = - 1, index_mean_old = - 1, index_max_old = - 1,
              range_sum_old = object_range_sum (snd obj),
              range_at_min_index_old = Fin 0, range_at_max_index_old = Fin 0\<rparr>"
proof -
  have n: "0 < nr_scans_in_bank ba" using assms(1,2) by simp
  have "(if newest - 1 < 0 then nr_scans_in_bank ba - 1 else newest - 1) =
          (newest - 1) mod nr_scans_in_bank ba"
  proof (cases "newest = 0")
    case True
    then show ?thesis using n by (simp add: zmod_minus1)
  next
    case False
    with assms(1,2) have "0 \<le> newest - 1" "newest - 1 < nr_scans_in_bank ba" by simp_all
    then have "(newest - 1) mod nr_scans_in_bank ba = newest - 1" by (rule mod_pos_pos_trivial)
    with False assms(1) show ?thesis by simp
  qed
  then show ?thesis
    using assms(3,4) by (simp add: first_call_def walk_call_def Let_def add.commute)
qed

text \<open>
  Claim C2, amended. In a bank with a checked configuration and a depth below \<open>2 ^ 32\<close>,
  let the object \<open>obj\<close> of the newest slot be present with the same span, and so the same
  width, in every older slot, its ranges there within the bounds of the tracker, which are
  \<open>range_min\<close> and the smaller of \<open>range_max\<close> and \<open>object_threshold_max_distance\<close>; and
  let its mean range in each older slot, as the source computes it in \<open>float\<close>, be within
  \<open>object_threshold_bank_tracking_max_delta_distance\<close> of the mean range in the slot
  searched before. Then the call of the tracker in \<open>findAndReportMovingObjects\<close> returns
  the object of the oldest slot, the slot after the newest one in the ring: its span, its
  middle index, which is not negative, its range sum and the ranges at its two ends. On the
  way the tracker makes a call that searches the slot \<open>k\<close> writes before the newest one,
  for every \<open>k\<close> from 1 to \<open>nr_scans_in_bank - 1\<close>.
\<close>

theorem tracked_to_oldest_slot:
  assumes "check ba" and "nr_scans_in_bank ba < 2 ^ 32"
    and "0 \<le> newest" and "newest < nr_scans_in_bank ba"
    and "same_object_in_every_slot ba bank newest obj lo hi"
  shows "track_object ba bank newest obj =
           segment_indices (bank ! nat ((newest + 1) mod nr_scans_in_bank ba)) lo hi \<and>
         0 \<le> index_mean_old (track_object ba bank newest obj) \<and>
         (\<forall>k \<in> {1..nr_scans_in_bank ba - 1}.
            \<exists>c. reaches ba bank (tracking_range_min ba) (tracking_range_max ba) 0
                   (first_call ba newest obj) c \<and>
                 levels_searched c = word_of_int k \<and>
                 levels_searched c \<noteq> word_of_int (nr_scans_in_bank ba) \<and>
                 current_level c = (newest - k) mod nr_scans_in_bank ba)"
proof -
  let ?n = "nr_scans_in_bank ba"
  let ?out0 = "\<lparr>index_min_old = - 1, index_mean_old = - 1, index_max_old = - 1,
              range_sum_old = object_range_sum (snd obj),
              range_at_min_index_old = Fin 0, range_at_max_index_old = Fin 0\<rparr>"
  from assms(1) have n: "2 \<le> ?n" and delta: "0 \<le> object_threshold_max_delta_width_in_points ba"
    by (simp_all add: check_def)
  then have n0: "0 < ?n" by simp
  from assms(5) have obj: "fst obj = lo" "nr_object_points (snd obj) = hi - lo + 1"
    by (simp_all add: same_object_in_every_slot_def)
  have first: "first_call ba newest obj = walk_call ba newest lo hi 1 ?out0"
    using assms(3,4) obj by (rule first_call_walk)
  have "getOldIndices ba bank (tracking_range_min ba) (tracking_range_max ba) 0
          (walk_call ba newest lo hi 1 ?out0) =
        segment_indices (older_slot ba bank newest (?n - 1)) lo hi"
    using n0 assms(2) delta assms(5)
  proof (rule walk_to_oldest)
    show "(1::int) \<le> 1" by simp
    show "1 \<le> ?n - 1" using n by simp
    show "range_sum_old ?out0 = newer_range_sum ba bank newest obj lo hi 1"
      by (simp add: newer_range_sum_def)
  qed
  moreover have "(newest - (?n - 1)) mod ?n = (newest + 1) mod ?n"
  proof -
    have "newest - (?n - 1) = newest + 1 - ?n" by simp
    then show ?thesis by (simp only: minus_mod_self2)
  qed
  ultimately have result: "track_object ba bank newest obj =
           segment_indices (bank ! nat ((newest + 1) mod ?n)) lo hi"
    by (simp add: track_object_def first older_slot_def)
  have "1 \<in> {1..?n - 1}" using n by simp
  with assms(5) have "segment_present ba (tracking_range_min ba) (tracking_range_max ba)
                       (older_slot ba bank newest 1) lo hi"
    unfolding same_object_in_every_slot_def by blast
  then have "0 \<le> lo" "lo \<le> hi" by (simp_all add: segment_present_def)
  then have mean: "0 \<le> (hi + lo) div 2" by simp
  have visits: "\<exists>c. reaches ba bank (tracking_range_min ba) (tracking_range_max ba) 0
                   (first_call ba newest obj) c \<and>
                 levels_searched c = word_of_int k \<and>
                 levels_searched c \<noteq> word_of_int ?n \<and>
                 current_level c = (newest - k) mod ?n"
    if k: "k \<in> {1..?n - 1}" for k
  proof -
    from k have k': "1 \<le> k" "k \<le> ?n - 1" by simp_all
    have "\<exists>out. range_sum_old out = newer_range_sum ba bank newest obj lo hi k \<and>
               reaches ba bank (tracking_range_min ba) (tracking_range_max ba) 0
                 (walk_call ba newest lo hi 1 ?out0) (walk_call ba newest lo hi k out)"
      using n0 assms(2) delta assms(5) _ k'
      by (rule walk_reaches) simp
    then obtain out where "reaches ba bank (tracking_range_min ba) (tracking_range_max ba) 0
                 (first_call ba newest obj) (walk_call ba newest lo hi k out)"
      unfolding first by blast
    moreover have "(word_of_int k :: 32 word) \<noteq> word_of_int ?n"
      using k' assms(2) by (intro level_count_neq) simp_all
    ultimately show ?thesis
      by (intro exI [of _ "walk_call ba newest lo hi k out"]) (simp add: walk_call_def)
  qed
  from result mean visits show ?thesis by (simp add: segment_indices_def)
qed


lemma ex_intervals:
  "{1..(2::int)} = {1, 2}" "{0..(1::int)} = {0, 1}" "{0..<(1::int)} = {0}"
  by auto

theorem tracked_to_oldest_slot_witness:
  "check ex_argument \<and>
   nr_scans_in_bank ex_argument < 2 ^ 32 \<and>
   same_object_in_every_slot ex_argument (bank_ranges_ema ex_bank_filled) 2 ex_object 0 1 \<and>
   find_objects ex_argument (bank_ranges_ema ex_bank_filled ! 2) 0 = [ex_object] \<and>
   track_object ex_argument (bank_ranges_ema ex_bank_filled) 2 ex_object =
     \<lparr>index_min_old = 0, index_mean_old = 0, index_max_old = 1,
      range_sum_old = Fin 4, range_at_min_index_old = Fin 2, range_at_max_index_old = Fin 2\<rparr> \<and>
   0 \<le> index_mean_old (track_object ex_argument (bank_ranges_ema ex_bank_filled) 2 ex_object)"
proof -
  let ?bank = "bank_ranges_ema ex_bank_filled"
  have c: "check ex_argument" by (simp add: check_def ex_argument_def)
  have n: "nr_scans_in_bank ex_argument < 2 ^ 32" by (simp add: ex_argument_def)
  have b: "?bank = [[Fin 2, Fin 2], [Fin 2, Fin 2], [Fin 2, Fin 2]]"
    by (simp add: ex_bank_filled_def)
  have s: "same_object_in_every_slot ex_argument ?bank 2 ex_object 0 1"
    by (simp add: same_object_in_every_slot_def segment_present_def older_slot_def
        newer_range_sum_def segment_range_sum_def tracking_range_min_def tracking_range_max_def
        ex_argument_def ex_object_def b ex_intervals float_ops)
  have f: "find_objects ex_argument (?bank ! 2) 0 = [ex_object]"
    by (simp add: b ex_find_objects)
  have i: "segment_indices (?bank ! nat ((2 + 1) mod nr_scans_in_bank ex_argument)) 0 1 =
     \<lparr>index_min_old = 0, index_mean_old = 0, index_max_old = 1,
      range_sum_old = Fin 4, range_at_min_index_old = Fin 2, range_at_max_index_old = Fin 2\<rparr>"
    by (simp add: segment_indices_def segment_range_sum_def b ex_argument_def float_ops)
  show ?thesis
    using c n s f i
      tracked_to_oldest_slot [OF c n, of 2 "bank_ranges_ema ex_bank_filled" ex_object 0 1]
    by (simp add: ex_argument_def)
qed


definition ex_object_near :: "int \<times> object_scan" where
  "ex_object_near =
     (0, \<lparr>nr_object_points = 3, object_range_sum = Fin 13,
          object_range_min = Fin 4, object_range_min_index = 0,
          object_range_max = Fin 5, object_range_max_index = 2,
          prev_range = Fin 5\<rparr>)"

definition ex_object_nearer :: "int \<times> object_scan" where
  "ex_object_nearer =
     (0, \<lparr>nr_object_points = 3, object_range_sum = Fin 10,
          object_range_min = Fin 3, object_range_min_index = 0,
          object_range_max = Fin 4, object_range_max_index = 2,
          prev_range = Fin 4\<rparr>)"

text \<open>
  Claim C2 as stated fails in two ways. First, beyond the upper bound of the tracker: with
  \<open>range_max = 10\<close> and \<open>object_threshold_max_distance = 2\<close>, every slot holds the ranges 3
  and 3, the search for objects finds the object in the newest slot, and the tracker
  returns \<open>-1\<close> at the first older slot. Second, rounding: with a depth of 2 and three
  points per scan, the newest slot holds 4, 4, 5 and the older slot 3, 3, 4. Each slot
  holds one object of width 3, and the mean ranges \<open>13 / 3\<close> and \<open>10 / 3\<close> differ by 1,
  which is the threshold; the two \<open>float\<close> quotients differ by more than 1, and the tracker
  returns \<open>-1\<close>.
\<close>

theorem same_segment_not_tracked:
  "find_objects ex_argument [Fin 3, Fin 3] 0 = [ex_object_far] \<and>
   track_object ex_argument [[Fin 3, Fin 3], [Fin 3, Fin 3], [Fin 3, Fin 3]] 2 ex_object_far =
     not_found \<and>
   index_mean_old
     (track_object ex_argument [[Fin 3, Fin 3], [Fin 3, Fin 3], [Fin 3, Fin 3]] 2
        ex_object_far) = - 1 \<and>
   find_objects ex_argument_wide [Fin 4, Fin 4, Fin 5] 0 = [ex_object_near] \<and>
   find_objects ex_argument_wide [Fin 3, Fin 3, Fin 4] 0 = [ex_object_nearer] \<and>
   object_threshold_bank_tracking_max_delta_distance ex_argument_wide = Fin 1 \<and>
   \<bar>(3 + 3 + 4) / 3 - (4 + 4 + 5) / 3\<bar> \<le> (1 :: real) \<and>
   mean_range_delta 3 3 (Fin 10) (Fin 13) = Fin (4194305 / 4194304) \<and>
   track_object ex_argument_wide [[Fin 3, Fin 3, Fin 4], [Fin 4, Fin 4, Fin 5]] 1
     ex_object_near = not_found \<and>
   index_mean_old
     (track_object ex_argument_wide [[Fin 3, Fin 3, Fin 4], [Fin 4, Fin 4, Fin 5]] 1
        ex_object_near) = - 1"
proof -
  have a1: "find_objects ex_argument [Fin 3, Fin 3] 0 = [ex_object_far]"
    by (simp add: find_objects.simps count_object_points.simps ex_argument_def
        ex_object_far_def Let_def float_ops)
  have a2: "track_object ex_argument [[Fin 3, Fin 3], [Fin 3, Fin 3], [Fin 3, Fin 3]] 2
              ex_object_far = not_found"
    by (simp add: ex_tracker_simps ex_object_far_def)
  have b1: "find_objects ex_argument_wide [Fin 4, Fin 4, Fin 5] 0 = [ex_object_near]"
    by (simp add: find_objects.simps count_object_points.simps ex_argument_wide_def
        ex_argument_def ex_object_near_def Let_def float_ops)
  have b2: "find_objects ex_argument_wide [Fin 3, Fin 3, Fin 4] 0 = [ex_object_nearer]"
    by (simp add: find_objects.simps count_object_points.simps ex_argument_wide_def
        ex_argument_def ex_object_nearer_def Let_def float_ops)
  have b3: "object_threshold_bank_tracking_max_delta_distance ex_argument_wide = Fin 1"
    by (simp add: ex_argument_wide_def ex_argument_def)
  have b4: "mean_range_delta 3 3 (Fin 10) (Fin 13) = Fin (4194305 / 4194304)"
    by (simp add: float_ops round_to_float_examples)
  have b5: "track_object ex_argument_wide [[Fin 3, Fin 3, Fin 4], [Fin 4, Fin 4, Fin 5]] 1
              ex_object_near = not_found"
    by (simp add: ex_tracker_simps ex_argument_wide_def ex_object_near_def
        round_to_float_examples)
  show ?thesis
    using a1 a2 b1 b2 b3 b4 b5 by (simp add: not_found_def)
qed

end
